theory Spec2Isabelle
  imports Complex_Main "HOL-Library.AList" "HOL-Library.Log_Nat"
begin

section \<open>JavaScript values\<close>

text \<open>
  The service receives already deserialised request bodies, so the values it inspects are
  trees of the JSON kinds plus \<open>undefined\<close> (the value of a missing property). A string
  is the list of its code units, restricted to the code units below 256, so that
  \<open>length\<close> is JavaScript's \<open>.length\<close>. Numbers are the finite ones (no NaN, and
  \<open>-0\<close> is \<open>0\<close>). Every array or object node of a tree is a reference of its own: two
  nodes at different positions are never the same object.
\<close>

datatype jsval =
    JUndefined
  | JNull
  | JBool bool
  | JNum rat
  | JStr string
  | JArr "jsval list"
  | JObj "(string \<times> jsval) list"

text \<open>Truthiness, as used by \<open>!x\<close>, \<open>if (x)\<close> and \<open>filter(id => id)\<close>.\<close>

fun truthy :: "jsval \<Rightarrow> bool" where
  "truthy JUndefined = False"
| "truthy JNull = False"
| "truthy (JBool b) = b"
| "truthy (JNum r) = (r \<noteq> 0)"
| "truthy (JStr s) = (s \<noteq> [])"
| "truthy (JArr xs) = True"
| "truthy (JObj fs) = True"

text \<open>
  \<open>===\<close>. On the values above it coincides with SameValueZero, the comparison of
  \<open>Set\<close>, \<open>Set.has\<close> and \<open>Array.includes\<close>. Two reference values at different
  positions are different objects, whatever they contain.
\<close>

fun strict_eq :: "jsval \<Rightarrow> jsval \<Rightarrow> bool" where
  "strict_eq JUndefined JUndefined = True"
| "strict_eq JNull JNull = True"
| "strict_eq (JBool a) (JBool b) = (a = b)"
| "strict_eq (JNum a) (JNum b) = (a = b)"
| "strict_eq (JStr a) (JStr b) = (a = b)"
| "strict_eq _ _ = False"

text \<open>\<open>Array.isArray(x)\<close>, \<open>typeof x === 'object'\<close> (true of \<open>null\<close>), \<open>typeof x === 'string'\<close>,
  \<open>typeof x === 'boolean'\<close>.\<close>

fun isArray :: "jsval \<Rightarrow> bool" where
  "isArray (JArr xs) = True"
| "isArray _ = False"

fun typeof_object :: "jsval \<Rightarrow> bool" where
  "typeof_object JNull = True"
| "typeof_object (JArr xs) = True"
| "typeof_object (JObj fs) = True"
| "typeof_object _ = False"

fun typeof_string :: "jsval \<Rightarrow> bool" where
  "typeof_string (JStr s) = True"
| "typeof_string _ = False"

fun typeof_boolean :: "jsval \<Rightarrow> bool" where
  "typeof_boolean (JBool b) = True"
| "typeof_boolean _ = False"

text \<open>
  Reading a named property \<open>x.k\<close> of a value that is neither \<open>null\<close> nor \<open>undefined\<close>
  (on those the read throws; the callers below test for them first, or model the throw).
  The names read by the service are own properties of plain objects only.
\<close>

fun get_prop :: "jsval \<Rightarrow> string \<Rightarrow> jsval" where
  "get_prop (JObj fs) k = (case map_of fs k of Some v \<Rightarrow> v | None \<Rightarrow> JUndefined)"
| "get_prop _ k = JUndefined"

text \<open>\<open>xs.includes(v)\<close>.\<close>

definition js_includes :: "jsval list \<Rightarrow> jsval \<Rightarrow> bool" where
  "js_includes xs v = list_ex (\<lambda>x. strict_eq x v) xs"

text \<open>\<open>[...new Set(xs)]\<close>: the elements in the order of their first occurrence.\<close>

definition Set_add :: "jsval list \<Rightarrow> jsval \<Rightarrow> jsval list" where
  "Set_add s v = (if js_includes s v then s else s @ [v])"

definition new_Set :: "jsval list \<Rightarrow> jsval list" where
  "new_Set xs = foldl Set_add [] xs"

section \<open>The model classes: options, questions\<close>

record opt =
  opt_id :: string
  opt_text :: string
  isCorrect :: bool

record question =
  q_id :: string
  q_text :: string
  q_type :: jsval
  q_options :: "opt list"
  q_createdAt :: string

text \<open>\<open>Question.getCorrectOptionIds\<close>: an array of strings.\<close>

definition getCorrectOptionIds :: "question \<Rightarrow> jsval list" where
  "getCorrectOptionIds q = map (\<lambda>option. JStr (opt_id option)) (filter isCorrect (q_options q))"

definition validateSingleChoice :: "jsval list \<Rightarrow> jsval list \<Rightarrow> bool" where
  "validateSingleChoice selected correct =
     (if length selected \<noteq> 1 then False else js_includes correct (selected ! 0))"

definition validateMultipleChoice :: "jsval list \<Rightarrow> jsval list \<Rightarrow> bool" where
  "validateMultipleChoice selected correct =
     (if length selected \<noteq> length correct then False
      else let allSelectedCorrect = list_all (\<lambda>i. js_includes correct i) selected;
               allCorrectSelected = list_all (\<lambda>i. js_includes selected i) correct
           in allSelectedCorrect \<and> allCorrectSelected)"

definition validateTextChoice :: "jsval list \<Rightarrow> jsval list \<Rightarrow> bool" where
  "validateTextChoice selected correct = list_ex (\<lambda>i. js_includes correct i) selected"

text \<open>The first lines of \<open>isAnswerCorrect\<close>: the selection without falsy entries and
  duplicates, and the test that every remaining id is the id of an option.\<close>

definition uniqueSelected :: "jsval list \<Rightarrow> jsval list" where
  "uniqueSelected selectedOptionIds = new_Set (filter truthy selectedOptionIds)"

definition allOptionsExist :: "question \<Rightarrow> jsval list \<Rightarrow> bool" where
  "allOptionsExist q unique =
     list_all (\<lambda>i. list_ex (\<lambda>option. strict_eq (JStr (opt_id option)) i) (q_options q)) unique"

text \<open>\<open>Question.isAnswerCorrect\<close>. No statement of its body can throw.\<close>

definition isAnswerCorrect :: "question \<Rightarrow> jsval \<Rightarrow> bool" where
  "isAnswerCorrect q selectedOptionIds =
     (case selectedOptionIds of
        JArr ids \<Rightarrow>
          (let unique = uniqueSelected ids;
               correctIds = getCorrectOptionIds q
           in if length correctIds = 0 then False
              else if length unique = 0 then False
              else if \<not> allOptionsExist q unique then False
              else if q_type q = JStr ''single_choice'' then validateSingleChoice unique correctIds
              else if q_type q = JStr ''multiple_choice'' then validateMultipleChoice unique correctIds
              else if q_type q = JStr ''text'' then validateTextChoice unique correctIds
              else False)
      | _ \<Rightarrow> False)"

text \<open>
  The evaluation preamble, in the words of the specification: the input is an array, at
  least one id remains after dropping falsy entries and duplicates, every remaining id
  names an option of the question, and the question has a correct option.
\<close>

definition passes_preamble :: "question \<Rightarrow> jsval \<Rightarrow> bool" where
  "passes_preamble q v =
     (case v of
        JArr ids \<Rightarrow> uniqueSelected ids \<noteq> [] \<and> allOptionsExist q (uniqueSelected ids)
                    \<and> getCorrectOptionIds q \<noteq> []
      | _ \<Rightarrow> False)"

text \<open>The selected ids of an array input, after the two clean-up steps; nothing for
  another input.\<close>

definition selected_ids :: "jsval \<Rightarrow> jsval list" where
  "selected_ids v = (case v of JArr ids \<Rightarrow> uniqueSelected ids | _ \<Rightarrow> [])"

text \<open>
  The same preamble stated on the entries of the array themselves, without the clean-up
  steps of the code: some entry is truthy, every truthy entry is the id of an option of
  the question, and some option is flagged correct. The set of correct ids is the set of
  the ids of the options flagged correct.
\<close>

definition correct_id_set :: "question \<Rightarrow> jsval set" where
  "correct_id_set q = JStr ` opt_id ` {option \<in> set (q_options q). isCorrect option}"

definition evaluation_preamble :: "question \<Rightarrow> jsval list \<Rightarrow> bool" where
  "evaluation_preamble q ids =
     ((\<exists>v \<in> set ids. truthy v)
      \<and> (\<forall>v \<in> set ids. truthy v \<longrightarrow> v \<in> JStr ` opt_id ` set (q_options q))
      \<and> (\<exists>option \<in> set (q_options q). isCorrect option))"

section \<open>Strings\<close>

text \<open>
  \<open>String.prototype.trim\<close> removes white space and line terminators from both ends;
  among the code units below 256 these are TAB, LF, VT, FF, CR, SPACE and NBSP.
  \<open>toLowerCase\<close> maps the capital letters of that range: A to Z, and the capitals
  from 192 to 222 other than the multiplication sign 215.
\<close>

definition js_whitespace :: "char \<Rightarrow> bool" where
  "js_whitespace c = ((of_char c :: nat) \<in> {9, 10, 11, 12, 13, 32, 160})"

definition trim :: "string \<Rightarrow> string" where
  "trim s = rev (dropWhile js_whitespace (rev (dropWhile js_whitespace s)))"

definition lower_char :: "char \<Rightarrow> char" where
  "lower_char c =
     (let n = (of_char c :: nat)
      in if (65 \<le> n \<and> n \<le> 90) \<or> (192 \<le> n \<and> n \<le> 222 \<and> n \<noteq> 215)
         then char_of (n + 32) else c)"

definition toLowerCase :: "string \<Rightarrow> string" where
  "toLowerCase s = map lower_char s"

section \<open>Errors\<close>

text \<open>
  The service throws \<open>new Error(message)\<close>; the message is a template literal, kept
  here as its parts: literal text, a number, or an interpolated value. \<open>TypeError\<close> is
  what the engine throws for a property read on \<open>null\<close> or \<open>undefined\<close> and for a
  call of something that is not a function.
\<close>

datatype part = Lit string | Num nat | Val jsval

datatype error = Error "part list" | TypeError

section \<open>The model classes: quizzes\<close>

text \<open>
  \<open>uuidv4()\<close> and \<open>new Date().toISOString()\<close> are read from the environment: the
  \<open>k\<close>-th identifier generated and the \<open>k\<close>-th time read during one call of the service.
\<close>

record env =
  uuidv4 :: "nat \<Rightarrow> string"
  now :: "nat \<Rightarrow> string"

record quiz =
  quiz_id :: string
  title :: string
  questions :: "question list"
  createdAt :: string
  updatedAt :: string

text \<open>\<open>new Quiz(title)\<close>.\<close>

definition Quiz_new :: "env \<Rightarrow> string \<Rightarrow> quiz" where
  "Quiz_new e t = \<lparr>quiz_id = uuidv4 e 0, title = trim t, questions = [],
     createdAt = now e 0, updatedAt = now e 1\<rparr>"

text \<open>\<open>Quiz.addQuestion\<close>; the argument is a \<open>Question\<close> by its type, so the
  \<open>instanceof\<close> test passes. The time is the second one read during \<open>addQuestion\<close> of the
  service (the first is the question's \<open>createdAt\<close>).\<close>

definition Quiz_addQuestion :: "env \<Rightarrow> question \<Rightarrow> quiz \<Rightarrow> quiz" where
  "Quiz_addQuestion e q z = z\<lparr>questions := questions z @ [q], updatedAt := now e 1\<rparr>"

text \<open>\<open>Quiz.findQuestionById\<close>: the first question with that id, or \<open>null\<close>.\<close>

definition findQuestionById :: "quiz \<Rightarrow> jsval \<Rightarrow> question option" where
  "findQuestionById z questionId = find (\<lambda>q. strict_eq (JStr (q_id q)) questionId) (questions z)"

text \<open>\<open>new Question(text, type = 'single_choice')\<close>, with the first identifier and
  the first time of the call.\<close>

definition Question_new :: "env \<Rightarrow> string \<Rightarrow> jsval \<Rightarrow> question" where
  "Question_new e t ty = \<lparr>q_id = uuidv4 e 0, q_text = trim t,
     q_type = (if ty = JUndefined then JStr ''single_choice'' else ty),
     q_options = [], q_createdAt = now e 0\<rparr>"

text \<open>\<open>Question.addOption(text, isCorrect = false)\<close>, with the identifier \<open>uuid\<close>.\<close>

definition addOption :: "string \<Rightarrow> jsval \<Rightarrow> jsval \<Rightarrow> question \<Rightarrow> error + opt \<times> question" where
  "addOption uuid t c q =
     (case t of
        JStr s \<Rightarrow>
          if \<not> truthy t then Inl (Error [Lit ''Option text must be a non-empty string''])
          else let trimmedText = trim s
               in if length trimmedText = 0
                  then Inl (Error [Lit ''Option text cannot be empty after trimming''])
                  else let option = \<lparr>opt_id = uuid, opt_text = trimmedText, isCorrect = truthy c\<rparr>
                       in Inr (option, q\<lparr>q_options := q_options q @ [option]\<rparr>)
      | _ \<Rightarrow> Inl (Error [Lit ''Option text must be a non-empty string'']))"

text \<open>\<open>Question.validateByType\<close> and \<open>Question.validate\<close>.\<close>

definition validateByType :: "question \<Rightarrow> opt list \<Rightarrow> error + unit" where
  "validateByType q correctOptions =
     (if q_type q = JStr ''single_choice'' then
        if length correctOptions \<noteq> 1
        then Inl (Error [Lit ''Single choice questions can only have one correct answer''])
        else if length (q_options q) < 2
        then Inl (Error [Lit ''Single choice questions must have at least 2 options''])
        else Inr ()
      else if q_type q = JStr ''multiple_choice'' then
        if length correctOptions < 2
        then Inl (Error [Lit ''Multiple choice questions must have at least 2 correct answers''])
        else if length correctOptions = length (q_options q)
        then Inl (Error [Lit ''Multiple choice questions must have at least one incorrect option''])
        else if length (q_options q) < 3
        then Inl (Error [Lit ''Multiple choice questions must have at least 3 options''])
        else Inr ()
      else if q_type q = JStr ''text'' then
        if length (q_text q) > 300
        then Inl (Error [Lit ''Text-based question cannot exceed 300 characters''])
        else Inr ()
      else Inl (Error [Lit ''Invalid question type: '', Val (q_type q)]))"

definition validate :: "question \<Rightarrow> error + bool" where
  "validate q =
     (if q_text q = [] \<or> length (trim (q_text q)) = 0
      then Inl (Error [Lit ''Question text cannot be empty''])
      else if length (q_options q) = 0
      then Inl (Error [Lit ''At least one option is required''])
      else let correctOptions = filter isCorrect (q_options q)
           in if length correctOptions = 0
              then Inl (Error [Lit ''At least one correct answer is required''])
              else (case validateByType q correctOptions of
                      Inl err \<Rightarrow> Inl err
                    | Inr u \<Rightarrow> Inr True))"

text \<open>
  \<open>Question.getPublicView\<close> and \<open>Quiz.getQuestionsWithoutAnswers\<close>: fresh object
  literals, so the result is given as the value that the caller serialises.
\<close>

definition getPublicView :: "question \<Rightarrow> jsval" where
  "getPublicView q =
     JObj [(''id'', JStr (q_id q)),
           (''text'', JStr (q_text q)),
           (''type'', q_type q),
           (''options'', JArr (map (\<lambda>option. JObj [(''id'', JStr (opt_id option)),
                                                  (''text'', JStr (opt_text option))])
                                  (q_options q)))]"

definition getQuestionsWithoutAnswers :: "quiz \<Rightarrow> jsval" where
  "getQuestionsWithoutAnswers z = JArr (map getPublicView (questions z))"

section \<open>Numbers\<close>

text \<open>
  A JavaScript number is an IEEE 754 double. The counts of the service are small
  integers, which doubles hold exactly; the one computation that leaves the integers is
  the percentage, \<open>Math.round((correctCount / totalQuestions) * 100)\<close>. Each of \<open>/\<close> and
  \<open>*\<close> returns the double nearest to the exact result, ties to the even significand.
  \<open>to_double\<close> is that rounding on the rationals, for the normal range (the values here
  lie between \<open>2 ^ - 32\<close> and \<open>101\<close>): with \<open>2 ^ k \<le> \<bar>x\<bar> < 2 ^ (k + 1)\<close> the
  doubles around \<open>x\<close> are the multiples of \<open>2 ^ (k - 52)\<close>.
\<close>

definition pow2 :: "int \<Rightarrow> rat" where
  "pow2 k = (if 0 \<le> k then 2 ^ nat k else 1 / 2 ^ nat (- k))"

definition round_half_even :: "rat \<Rightarrow> int" where
  "round_half_even x =
     (let f = \<lfloor>x\<rfloor>; d = x - of_int f
      in if d < 1 / 2 then f
         else if 1 / 2 < d then f + 1
         else if even f then f else f + 1)"

text \<open>The \<open>k\<close> with \<open>2 ^ k \<le> x < 2 ^ (k + 1)\<close>, for \<open>x > 0\<close>, from the bit lengths of
  numerator and denominator.\<close>

definition ilog2 :: "rat \<Rightarrow> int" where
  "ilog2 x =
     (let (p, q) = quotient_of x; k = bitlen p - bitlen q
      in if pow2 k \<le> x then k else k - 1)"

definition to_double :: "rat \<Rightarrow> rat" where
  "to_double x =
     (if x = 0 then 0
      else let e = ilog2 \<bar>x\<bar> - 52
           in of_int (round_half_even (x / pow2 e)) * pow2 e)"

definition double_div :: "rat \<Rightarrow> rat \<Rightarrow> rat" where
  "double_div a b = to_double (a / b)"

definition double_mul :: "rat \<Rightarrow> rat \<Rightarrow> rat" where
  "double_mul a b = to_double (a * b)"

text \<open>\<open>Math.round\<close>: the nearest integer, a tie going up.\<close>

definition Math_round :: "rat \<Rightarrow> int" where
  "Math_round x = \<lfloor>x + 1 / 2\<rfloor>"

section \<open>The quiz service\<close>

text \<open>The service object holds one \<open>Map\<close> from quiz id to quiz, in insertion order.\<close>

record service =
  quizzes :: "(string \<times> quiz) list"

text \<open>\<open>Map.get\<close> with any value as key; the keys of the map are strings.\<close>

definition Map_get :: "(string \<times> quiz) list \<Rightarrow> jsval \<Rightarrow> quiz option" where
  "Map_get m k = (case k of JStr key \<Rightarrow> map_of m key | _ \<Rightarrow> None)"

text \<open>A quiz is an object held by the map: a method that changes the quiz found under
  a key changes the entry of the map.\<close>

definition put_quiz :: "jsval \<Rightarrow> quiz \<Rightarrow> service \<Rightarrow> service" where
  "put_quiz k z s = (case k of JStr key \<Rightarrow> s\<lparr>quizzes := AList.update key z (quizzes s)\<rparr> | _ \<Rightarrow> s)"

definition validateQuizId :: "jsval \<Rightarrow> error + unit" where
  "validateQuizId quizId =
     (if \<not> truthy quizId then Inl (Error [Lit ''Quiz ID is required''])
      else if \<not> typeof_string quizId then Inl (Error [Lit ''Quiz ID must be a string''])
      else Inr ())"

definition getQuiz :: "service \<Rightarrow> jsval \<Rightarrow> error + quiz" where
  "getQuiz s quizId =
     (case validateQuizId quizId of
        Inl err \<Rightarrow> Inl err
      | Inr u \<Rightarrow>
          (case Map_get (quizzes s) quizId of
             None \<Rightarrow> Inl (Error [Lit ''Quiz not found''])
           | Some z \<Rightarrow> Inr z))"

definition createQuiz :: "env \<Rightarrow> jsval \<Rightarrow> service \<Rightarrow> (error + quiz) \<times> service" where
  "createQuiz e t s =
     (if t = JUndefined \<or> t = JNull then (Inl (Error [Lit ''Quiz title is required'']), s)
      else case t of
        JStr str \<Rightarrow>
          (let trimmedTitle = trim str
           in if length trimmedTitle = 0
              then (Inl (Error [Lit ''Quiz title is required'']), s)
              else if length trimmedTitle < 3
              then (Inl (Error [Lit ''Quiz title must be at least 3 characters long'']), s)
              else if length trimmedTitle > 200
              then (Inl (Error [Lit ''Quiz title cannot exceed 200 characters'']), s)
              else let z = Quiz_new e trimmedTitle
                   in (Inr z, s\<lparr>quizzes := AList.update (quiz_id z) z (quizzes s)\<rparr>))
      | _ \<Rightarrow> (Inl (Error [Lit ''Quiz title must be a string'']), s))"

definition validateQuestionData :: "jsval \<Rightarrow> error + unit" where
  "validateQuestionData questionData =
     (if \<not> truthy questionData \<or> \<not> typeof_object questionData
      then Inl (Error [Lit ''Question data is required''])
      else case get_prop questionData ''text'' of
        JStr t \<Rightarrow>
          (if t = [] then Inl (Error [Lit ''Question text is required and must be a string''])
           else let trimmedText = trim t; ty = get_prop questionData ''type''
                in if length trimmedText = 0
                   then Inl (Error [Lit ''Question text cannot be empty''])
                   else if strict_eq ty (JStr ''text'') \<and> length trimmedText > 300
                   then Inl (Error [Lit ''Text-based question cannot exceed 300 characters''])
                   else if length trimmedText > 1000
                   then Inl (Error [Lit ''Question text cannot exceed 1000 characters''])
                   else if \<not> truthy ty
                   then Inl (Error [Lit ''Question type is required''])
                   else if \<not> js_includes [JStr ''single_choice'', JStr ''multiple_choice'', JStr ''text''] ty
                   then Inl (Error [Lit ''Invalid question type: '', Lit [CHR 0x22], Val ty,
                                    Lit [CHR 0x22], Lit ''. Must be one of: '',
                                    Lit ''single_choice, multiple_choice, text''])
                   else Inr ())
      | _ \<Rightarrow> Inl (Error [Lit ''Question text is required and must be a string'']))"

text \<open>
  The \<open>forEach\<close> of \<open>addOptionsToQuestion\<close>: \<open>index\<close> is the position of the option,
  \<open>optionTexts\<close> the set of lower-cased texts seen so far. The option at position
  \<open>index\<close> gets the identifier generated after the question's own and those of the
  options before it.
\<close>

fun addOptions_forEach ::
  "env \<Rightarrow> nat \<Rightarrow> jsval list \<Rightarrow> string list \<Rightarrow> question \<Rightarrow> error + question" where
  "addOptions_forEach e index [] optionTexts q = Inr q"
| "addOptions_forEach e index (optionData # rest) optionTexts q =
     (if \<not> truthy optionData \<or> \<not> typeof_object optionData
      then Inl (Error [Lit ''Option '', Num (index + 1), Lit '' must be an object''])
      else case get_prop optionData ''text'' of
        JStr t \<Rightarrow>
          (if t = [] then Inl (Error [Lit ''Option '', Num (index + 1), Lit '' must have text''])
           else let trimmedText = trim t
                in if length trimmedText = 0
                   then Inl (Error [Lit ''Option '', Num (index + 1), Lit '' text cannot be empty''])
                   else if length trimmedText > 500
                   then Inl (Error [Lit ''Option '', Num (index + 1),
                                    Lit '' text cannot exceed 500 characters''])
                   else let lowerText = toLowerCase trimmedText
                        in if lowerText \<in> set optionTexts
                           then Inl (Error [Lit ''Duplicate option text found: '', Lit [CHR 0x22],
                                            Lit trimmedText, Lit [CHR 0x22]])
                           else let c = get_prop optionData ''isCorrect''
                                in if c \<noteq> JUndefined \<and> \<not> typeof_boolean c
                                   then Inl (Error [Lit ''Option '', Num (index + 1),
                                                    Lit '' isCorrect must be a boolean''])
                                   else (case addOption (uuidv4 e (index + 1)) (JStr trimmedText) c q of
                                           Inl err \<Rightarrow> Inl err
                                         | Inr (option, q') \<Rightarrow>
                                             addOptions_forEach e (index + 1) rest
                                               (optionTexts @ [lowerText]) q'))
      | _ \<Rightarrow> Inl (Error [Lit ''Option '', Num (index + 1), Lit '' must have text'']))"

definition addOptionsToQuestion :: "env \<Rightarrow> question \<Rightarrow> jsval \<Rightarrow> error + question" where
  "addOptionsToQuestion e q options =
     (case options of
        JArr os \<Rightarrow>
          if length os = 0 then Inl (Error [Lit ''At least one option is required''])
          else if length os > 10 then Inl (Error [Lit ''Question cannot have more than 10 options''])
          else addOptions_forEach e 0 os [] q
      | _ \<Rightarrow> Inl (Error [Lit ''Options must be an array'']))"

text \<open>\<open>addQuestion\<close>. After \<open>validateQuestionData\<close> the text is a string; on anything
  else \<open>questionData.text.trim()\<close> would be a \<open>TypeError\<close>.\<close>

definition addQuestion :: "env \<Rightarrow> jsval \<Rightarrow> jsval \<Rightarrow> service \<Rightarrow> (error + question) \<times> service" where
  "addQuestion e quizId questionData s =
     (case getQuiz s quizId of
        Inl err \<Rightarrow> (Inl err, s)
      | Inr z \<Rightarrow>
          (case validateQuestionData questionData of
             Inl err \<Rightarrow> (Inl err, s)
           | Inr u \<Rightarrow>
               (case get_prop questionData ''text'' of
                  JStr t \<Rightarrow>
                    (let q0 = Question_new e (trim t) (get_prop questionData ''type'')
                     in case addOptionsToQuestion e q0 (get_prop questionData ''options'') of
                          Inl err \<Rightarrow> (Inl err, s)
                        | Inr q \<Rightarrow>
                            (case validate q of
                               Inl err \<Rightarrow> (Inl err, s)
                             | Inr ok \<Rightarrow> (Inr q, put_quiz quizId (Quiz_addQuestion e q z) s)))
                | _ \<Rightarrow> (Inl TypeError, s))))"

definition getQuizQuestions :: "service \<Rightarrow> jsval \<Rightarrow> error + jsval" where
  "getQuizQuestions s quizId =
     (case getQuiz s quizId of
        Inl err \<Rightarrow> Inl err
      | Inr z \<Rightarrow>
          if length (questions z) = 0 then Inl (Error [Lit ''Quiz has no questions yet''])
          else Inr (getQuestionsWithoutAnswers z))"

definition deleteQuiz :: "jsval \<Rightarrow> service \<Rightarrow> (error + bool) \<times> service" where
  "deleteQuiz quizId s =
     (case getQuiz s quizId of
        Inl err \<Rightarrow> (Inl err, s)
      | Inr z \<Rightarrow>
          (case quizId of
             JStr key \<Rightarrow> (Inr True, s\<lparr>quizzes := AList.delete key (quizzes s)\<rparr>)
           | _ \<Rightarrow> (Inr False, s)))"

definition updateQuizTitle :: "env \<Rightarrow> jsval \<Rightarrow> jsval \<Rightarrow> service \<Rightarrow> (error + quiz) \<times> service" where
  "updateQuizTitle e quizId newTitle s =
     (case getQuiz s quizId of
        Inl err \<Rightarrow> (Inl err, s)
      | Inr z \<Rightarrow>
          (case newTitle of
             JStr t \<Rightarrow>
               (if t = [] then (Inl (Error [Lit ''New title must be a non-empty string'']), s)
                else let trimmedTitle = trim t
                     in if length trimmedTitle = 0
                        then (Inl (Error [Lit ''Quiz title cannot be empty'']), s)
                        else if length trimmedTitle > 200
                        then (Inl (Error [Lit ''Quiz title cannot exceed 200 characters'']), s)
                        else let z' = z\<lparr>title := trimmedTitle, updatedAt := now e 0\<rparr>
                             in (Inr z', put_quiz quizId z' s))
           | _ \<Rightarrow> (Inl (Error [Lit ''New title must be a non-empty string'']), s)))"

section \<open>Submitting answers\<close>

text \<open>
  The \<open>forEach\<close> of \<open>validateAnswersFormat\<close>: \<open>index\<close> is the position of the entry,
  \<open>questionIds\<close> the set of the quiz's question ids, \<open>answeredQuestionIds\<close> the set of
  the ids answered by the entries before.
\<close>

fun validateAnswers_forEach ::
  "jsval list \<Rightarrow> nat \<Rightarrow> jsval list \<Rightarrow> jsval list \<Rightarrow> error + unit" where
  "validateAnswers_forEach questionIds index [] answeredQuestionIds = Inr ()"
| "validateAnswers_forEach questionIds index (answer # rest) answeredQuestionIds =
     (if \<not> truthy answer \<or> \<not> typeof_object answer
      then Inl (Error [Lit ''Answer '', Num (index + 1), Lit '' must be an object''])
      else if \<not> truthy (get_prop answer ''questionId'')
      then Inl (Error [Lit ''Answer '', Num (index + 1), Lit '' is missing questionId''])
      else if \<not> js_includes questionIds (get_prop answer ''questionId'')
      then Inl (Error [Lit ''Question '', Val (get_prop answer ''questionId''),
                       Lit '' not found in this quiz''])
      else if js_includes answeredQuestionIds (get_prop answer ''questionId'')
      then Inl (Error [Lit ''Duplicate answer for question '', Val (get_prop answer ''questionId'')])
      else if \<not> truthy (get_prop answer ''selectedOptionIds'')
                \<or> \<not> isArray (get_prop answer ''selectedOptionIds'')
      then Inl (Error [Lit ''Answer '', Num (index + 1),
                       Lit '' must have selectedOptionIds as an array''])
      else if get_prop answer ''selectedOptionIds'' = JArr []
      then Inl (Error [Lit ''Answer '', Num (index + 1),
                       Lit '' must have at least one selected option''])
      else validateAnswers_forEach questionIds (index + 1) rest
             (Set_add answeredQuestionIds (get_prop answer ''questionId'')))"

definition validateAnswersFormat :: "jsval \<Rightarrow> quiz \<Rightarrow> error + unit" where
  "validateAnswersFormat answers z =
     (case answers of
        JArr as \<Rightarrow>
          if length as = 0 then Inl (Error [Lit ''At least one answer must be provided''])
          else if length as > length (questions z)
          then Inl (Error [Lit ''Number of answers exceeds number of questions''])
          else validateAnswers_forEach (new_Set (map (\<lambda>q. JStr (q_id q)) (questions z))) 0 as []
      | _ \<Rightarrow> Inl (Error [Lit ''Answers must be an array'']))"

text \<open>One entry of the results of a submission, and the \<open>{id, text}\<close> of an option.\<close>

record option_detail =
  od_id :: string
  od_text :: string

record answer_result =
  r_questionId :: jsval
  r_questionText :: string
  r_questionType :: jsval
  r_selectedOptionIds :: "jsval list"
  r_correctOptionIds :: "jsval list"
  r_isCorrect :: bool
  r_selectedOptions :: "option_detail list"
  r_correctOptions :: "option_detail list"

text \<open>\<open>getOptionDetails\<close>: the ids that name no option are left out.\<close>

definition getOptionDetails :: "question \<Rightarrow> jsval list \<Rightarrow> option_detail list" where
  "getOptionDetails q optionIds =
     List.map_filter
       (\<lambda>i. case find (\<lambda>option. strict_eq (JStr (opt_id option)) i) (q_options q) of
               Some option \<Rightarrow> Some \<lparr>od_id = opt_id option, od_text = opt_text option\<rparr>
             | None \<Rightarrow> None)
       optionIds"

text \<open>The inner \<open>forEach\<close> of \<open>processAnswers\<close>, over the selected option ids.\<close>

fun checkOptionIds :: "question \<Rightarrow> jsval list \<Rightarrow> error + unit" where
  "checkOptionIds q [] = Inr ()"
| "checkOptionIds q (optionId # rest) =
     (if \<not> js_includes (new_Set (map (\<lambda>option. JStr (opt_id option)) (q_options q))) optionId
      then Inl (Error [Lit ''Invalid option ID: '', Val optionId,
                       Lit '' for question '', Lit (q_id q)])
      else checkOptionIds q rest)"

text \<open>
  The outer \<open>forEach\<close> of \<open>processAnswers\<close>. It is written for entries that
  \<open>validateAnswersFormat\<close> has accepted; on others the property reads and calls of its
  body throw a \<open>TypeError\<close>: \<open>answer.questionId\<close> of \<open>null\<close> or \<open>undefined\<close>,
  \<open>question.options\<close> when no question has the id, and \<open>selectedOptionIds.forEach\<close>
  when that is not an array.
\<close>

fun processAnswers_forEach :: "quiz \<Rightarrow> jsval list \<Rightarrow> answer_result list \<Rightarrow> error + answer_result list" where
  "processAnswers_forEach z [] results = Inr results"
| "processAnswers_forEach z (answer # rest) results =
     (if answer = JUndefined \<or> answer = JNull then Inl TypeError
      else case findQuestionById z (get_prop answer ''questionId'') of
        None \<Rightarrow> Inl TypeError
      | Some q \<Rightarrow>
          (case get_prop answer ''selectedOptionIds'' of
             JArr ids \<Rightarrow>
               (case checkOptionIds q ids of
                  Inl err \<Rightarrow> Inl err
                | Inr u \<Rightarrow>
                    (let correct = isAnswerCorrect q (JArr ids)
                     in processAnswers_forEach z rest
                          (results @
                           [\<lparr>r_questionId = get_prop answer ''questionId'',
                             r_questionText = q_text q,
                             r_questionType = q_type q,
                             r_selectedOptionIds = ids,
                             r_correctOptionIds = getCorrectOptionIds q,
                             r_isCorrect = correct,
                             r_selectedOptions = getOptionDetails q ids,
                             r_correctOptions = getOptionDetails q (getCorrectOptionIds q)\<rparr>])))
           | _ \<Rightarrow> Inl TypeError))"

definition processAnswers :: "jsval \<Rightarrow> quiz \<Rightarrow> error + answer_result list" where
  "processAnswers answers z =
     (case answers of
        JArr as \<Rightarrow> processAnswers_forEach z as []
      | _ \<Rightarrow> Inl TypeError)"

record stats =
  score :: int
  total :: int
  percentage :: int
  answeredCount :: int
  unansweredCount :: int
  passed :: bool
  grade :: string

record submission = stats +
  results :: "answer_result list"
  submittedAt :: string

definition calculateGrade :: "int \<Rightarrow> string" where
  "calculateGrade p =
     (if p \<ge> 90 then ''A''
      else if p \<ge> 80 then ''B''
      else if p \<ge> 70 then ''C''
      else if p \<ge> 60 then ''D''
      else ''F'')"

definition calculateStatistics :: "answer_result list \<Rightarrow> nat \<Rightarrow> stats" where
  "calculateStatistics rs totalQuestions =
     (let correctCount = length (filter r_isCorrect rs);
          p = (if totalQuestions > 0
               then Math_round (double_mul (double_div (of_nat correctCount) (of_nat totalQuestions)) 100)
               else 0)
      in \<lparr>score = int correctCount,
          total = int totalQuestions,
          percentage = p,
          answeredCount = int (length rs),
          unansweredCount = int totalQuestions - int (length rs),
          passed = (p \<ge> 60),
          grade = calculateGrade p\<rparr>)"

text \<open>\<open>submitQuizAnswers\<close>. The service object is returned as it is after the call.\<close>

definition submitQuizAnswers ::
  "env \<Rightarrow> jsval \<Rightarrow> jsval \<Rightarrow> service \<Rightarrow> (error + submission) \<times> service" where
  "submitQuizAnswers e quizId answers s =
     (case getQuiz s quizId of
        Inl err \<Rightarrow> (Inl err, s)
      | Inr z \<Rightarrow>
          if length (questions z) = 0 then (Inl (Error [Lit ''Quiz has no questions'']), s)
          else (case validateAnswersFormat answers z of
                  Inl err \<Rightarrow> (Inl err, s)
                | Inr u \<Rightarrow>
                    (case processAnswers answers z of
                       Inl err \<Rightarrow> (Inl err, s)
                     | Inr rs \<Rightarrow>
                         (let st = calculateStatistics rs (length (questions z))
                          in (Inr \<lparr>score = score st, total = total st,
                                    percentage = percentage st,
                                    answeredCount = answeredCount st,
                                    unansweredCount = unansweredCount st,
                                    passed = passed st, grade = grade st,
                                    results = rs, submittedAt = now e 0\<rparr>,
                              s)))))"

text \<open>
  The percentage in the words of the specification, \<open>round(score / total * 100)\<close>
  in exact arithmetic, and the submissions for which \<open>score / total * 100\<close> lies
  half-way between two integers.
\<close>

definition exact_percentage :: "int \<Rightarrow> int \<Rightarrow> int" where
  "exact_percentage sc tot = Math_round (of_int sc / of_int tot * 100)"

definition half_way :: "int \<Rightarrow> int \<Rightarrow> bool" where
  "half_way sc tot = ((200 * sc + tot) mod (2 * tot) = 0)"

section \<open>Reachable states and the shape of the public view\<close>

definition clearAll :: "service \<Rightarrow> service" where
  "clearAll s = s\<lparr>quizzes := []\<rparr>"

text \<open>The states of the service object: it starts with an empty map, and every method
  that the service exports takes it to another state.\<close>

inductive reachable :: "service \<Rightarrow> bool" where
  reachable_init: "reachable \<lparr>quizzes = []\<rparr>"
| reachable_createQuiz: "reachable s \<Longrightarrow> reachable (snd (createQuiz e t s))"
| reachable_addQuestion: "reachable s \<Longrightarrow> reachable (snd (addQuestion e quizId questionData s))"
| reachable_deleteQuiz: "reachable s \<Longrightarrow> reachable (snd (deleteQuiz quizId s))"
| reachable_updateQuizTitle: "reachable s \<Longrightarrow> reachable (snd (updateQuizTitle e quizId t s))"
| reachable_submitQuizAnswers: "reachable s \<Longrightarrow> reachable (snd (submitQuizAnswers e quizId answers s))"
| reachable_clearAll: "reachable s \<Longrightarrow> reachable (clearAll s)"

text \<open>The property names of an object, in order, and whether a property name occurs
  anywhere inside a value.\<close>

definition keys_of :: "jsval \<Rightarrow> string list" where
  "keys_of v = (case v of JObj fs \<Rightarrow> map fst fs | _ \<Rightarrow> [])"

fun mentions :: "string \<Rightarrow> jsval \<Rightarrow> bool" where
  "mentions k (JArr xs) = (\<exists>x \<in> set xs. mentions k x)"
| "mentions k (JObj fs) = (\<exists>f \<in> set fs. fst f = k \<or> mentions k (snd f))"
| "mentions k v = False"

text \<open>
  The answer-free projection in the words of the specification: an array of objects
  with exactly the fields id, text, type and options, where options is an array of
  objects with exactly the fields id and text.
\<close>

definition public_question_shape :: "jsval \<Rightarrow> bool" where
  "public_question_shape v =
     (keys_of v = [''id'', ''text'', ''type'', ''options'']
      \<and> (case get_prop v ''options'' of
            JArr os \<Rightarrow> list_all (\<lambda>option. keys_of option = [''id'', ''text'']) os
          | _ \<Rightarrow> False))"

definition answer_free :: "jsval \<Rightarrow> bool" where
  "answer_free v = (case v of JArr qs \<Rightarrow> list_all public_question_shape qs | _ \<Rightarrow> False)"

section \<open>Invariants of the service and the conditions of the envelope check\<close>

text \<open>The three question types that \<open>validateQuestionData\<close> lets through, and the
  states in which every stored question has one of them.\<close>

definition valid_types :: "jsval set" where
  "valid_types = {JStr ''single_choice'', JStr ''multiple_choice'', JStr ''text''}"

definition questions_typed :: "service \<Rightarrow> bool" where
  "questions_typed s =
     (\<forall>key z. map_of (quizzes s) key = Some z \<longrightarrow> (\<forall>q \<in> set (questions z). q_type q \<in> valid_types))"

text \<open>
  The conditions of the specification under which a submission is refused. An entry
  lacks its \<open>questionId\<close> when the property is missing or falsy, and lacks its
  \<open>selectedOptionIds\<close> unless the property is an array with at least one element.
\<close>

definition is_object :: "jsval \<Rightarrow> bool" where
  "is_object v = (case v of JObj fs \<Rightarrow> True | JArr xs \<Rightarrow> True | _ \<Rightarrow> False)"

definition nonempty_array :: "jsval \<Rightarrow> bool" where
  "nonempty_array v = (case v of JArr xs \<Rightarrow> xs \<noteq> [] | _ \<Rightarrow> False)"

definition entry_malformed :: "quiz \<Rightarrow> jsval \<Rightarrow> bool" where
  "entry_malformed z a =
     (\<not> is_object a
      \<or> \<not> truthy (get_prop a ''questionId'')
      \<or> get_prop a ''questionId'' \<notin> set (map (\<lambda>q. JStr (q_id q)) (questions z))
      \<or> \<not> nonempty_array (get_prop a ''selectedOptionIds''))"

definition envelope_refused :: "quiz \<Rightarrow> jsval \<Rightarrow> bool" where
  "envelope_refused z answers =
     (case answers of
        JArr as \<Rightarrow>
          as = [] \<or> length as > length (questions z)
          \<or> (\<exists>a \<in> set as. entry_malformed z a)
          \<or> \<not> distinct (map (\<lambda>a. get_prop a ''questionId'') as)
      | _ \<Rightarrow> True)"

text \<open>What every reachable quiz title does satisfy: it is trimmed and has between one
  and 200 characters.\<close>

definition titles_bounded :: "service \<Rightarrow> bool" where
  "titles_bounded s =
     (\<forall>key z. map_of (quizzes s) key = Some z \<longrightarrow>
        trim (title z) = title z \<and> 1 \<le> length (title z) \<and> length (title z) \<le> 200)"

section \<open>The service on an explicit store\<close>

text \<open>
  The quizzes, questions and options are objects that the service holds by reference,
  and so are the array \<open>results\<close> and the set \<open>answeredQuestionIds\<close> that a submission
  builds up. Here every object lives at an address of a store, a method that receives
  an object receives its address, and a method is a computation that may read and write
  any object and end in a value or an error. Arrays and sets that are not written after
  they are made (the results of \<open>map\<close> and \<open>filter\<close>, \<open>questionIds\<close>,
  \<open>validOptionIds\<close>) are kept as values. The arrays \<open>quiz.questions\<close> and
  \<open>question.options\<close> are the fields \<open>o_questions\<close> and \<open>n_options\<close> of the object
  that owns them, a list of the addresses of their elements.
\<close>

type_synonym addr = nat

record quiz_obj =
  o_id :: string
  o_title :: string
  o_questions :: "addr list"
  o_createdAt :: string
  o_updatedAt :: string

record question_obj =
  n_id :: string
  n_text :: string
  n_type :: jsval
  n_options :: "addr list"
  n_createdAt :: string

datatype obj =
    Quiz_obj quiz_obj
  | Question_obj question_obj
  | Option_obj opt
  | Array_obj "answer_result list"
  | Set_obj "jsval list"

text \<open>The store: the \<open>Map\<close> of the service from quiz id to quiz object, the objects,
  and the next free address.\<close>

record store =
  quizzes_map :: "(string \<times> addr) list"
  objs :: "addr \<rightharpoonup> obj"
  next_addr :: addr

type_synonym 'a comp = "store \<Rightarrow> (error + 'a) \<times> store"

definition return :: "'a \<Rightarrow> 'a comp" where
  "return x s = (Inr x, s)"

definition throw :: "error \<Rightarrow> 'a comp" where
  "throw err s = (Inl err, s)"

text \<open>Sequencing: an error ends the computation, with the store as the error left it.\<close>

definition bind :: "'a comp \<Rightarrow> ('a \<Rightarrow> 'b comp) \<Rightarrow> 'b comp" where
  "bind m f s = (case m s of (Inl err, s') \<Rightarrow> (Inl err, s') | (Inr x, s') \<Rightarrow> f x s')"

text \<open>A new object (an array or object literal, \<open>new Set()\<close>), and a write to an object.\<close>

definition alloc :: "obj \<Rightarrow> addr comp" where
  "alloc ob s =
     (Inr (next_addr s), s\<lparr>objs := (objs s)(next_addr s \<mapsto> ob), next_addr := Suc (next_addr s)\<rparr>)"

definition write_obj :: "addr \<Rightarrow> obj \<Rightarrow> unit comp" where
  "write_obj a ob s = (Inr (), s\<lparr>objs := (objs s)(a \<mapsto> ob)\<rparr>)"

text \<open>Reading an object of a given class; anything else at the address is a
  \<open>TypeError\<close>.\<close>

definition read_quiz :: "addr \<Rightarrow> quiz_obj comp" where
  "read_quiz a s = (case objs s a of Some (Quiz_obj z) \<Rightarrow> (Inr z, s) | _ \<Rightarrow> (Inl TypeError, s))"

definition read_question_obj :: "addr \<Rightarrow> question_obj comp" where
  "read_question_obj a s =
     (case objs s a of Some (Question_obj n) \<Rightarrow> (Inr n, s) | _ \<Rightarrow> (Inl TypeError, s))"

definition read_option :: "addr \<Rightarrow> opt comp" where
  "read_option a s = (case objs s a of Some (Option_obj option) \<Rightarrow> (Inr option, s) | _ \<Rightarrow> (Inl TypeError, s))"

definition read_array :: "addr \<Rightarrow> answer_result list comp" where
  "read_array a s = (case objs s a of Some (Array_obj rs) \<Rightarrow> (Inr rs, s) | _ \<Rightarrow> (Inl TypeError, s))"

definition read_set :: "addr \<Rightarrow> jsval list comp" where
  "read_set a s = (case objs s a of Some (Set_obj xs) \<Rightarrow> (Inr xs, s) | _ \<Rightarrow> (Inl TypeError, s))"

text \<open>\<open>array.push(r)\<close> and \<open>set.add(v)\<close>.\<close>

definition push :: "addr \<Rightarrow> answer_result \<Rightarrow> unit comp" where
  "push a r = bind (read_array a) (\<lambda>rs. write_obj a (Array_obj (rs @ [r])))"

definition add :: "addr \<Rightarrow> jsval \<Rightarrow> unit comp" where
  "add a v = bind (read_set a) (\<lambda>xs. write_obj a (Set_obj (Set_add xs v)))"

text \<open>The options of a question object, and the question with its options, as the
  methods of \<open>Question\<close> read them through \<open>this\<close>.\<close>

fun read_options :: "addr list \<Rightarrow> opt list comp" where
  "read_options [] = return []"
| "read_options (a # as) =
     bind (read_option a) (\<lambda>option. bind (read_options as) (\<lambda>os. return (option # os)))"

definition read_question :: "addr \<Rightarrow> question comp" where
  "read_question a =
     bind (read_question_obj a) (\<lambda>n.
     bind (read_options (n_options n)) (\<lambda>os.
     return \<lparr>q_id = n_id n, q_text = n_text n, q_type = n_type n, q_options = os,
             q_createdAt = n_createdAt n\<rparr>))"

text \<open>The methods of \<open>Question\<close> that a submission calls, on a question object.\<close>

definition getCorrectOptionIds_on :: "addr \<Rightarrow> jsval list comp" where
  "getCorrectOptionIds_on question = bind (read_question question) (\<lambda>q. return (getCorrectOptionIds q))"

definition isAnswerCorrect_on :: "addr \<Rightarrow> jsval \<Rightarrow> bool comp" where
  "isAnswerCorrect_on question selectedOptionIds =
     bind (read_question question) (\<lambda>q. return (isAnswerCorrect q selectedOptionIds))"

text \<open>\<open>Quiz.findQuestionById\<close>, and \<open>quiz.questions.map(q => q.id)\<close>.\<close>

fun find_question :: "addr list \<Rightarrow> jsval \<Rightarrow> addr option comp" where
  "find_question [] questionId = return None"
| "find_question (a # as) questionId =
     bind (read_question_obj a) (\<lambda>n.
       if strict_eq (JStr (n_id n)) questionId then return (Some a)
       else find_question as questionId)"

definition findQuestionById_on :: "addr \<Rightarrow> jsval \<Rightarrow> addr option comp" where
  "findQuestionById_on quiz questionId =
     bind (read_quiz quiz) (\<lambda>z. find_question (o_questions z) questionId)"

fun question_ids :: "addr list \<Rightarrow> jsval list comp" where
  "question_ids [] = return []"
| "question_ids (a # as) =
     bind (read_question_obj a) (\<lambda>n. bind (question_ids as) (\<lambda>ids. return (JStr (n_id n) # ids)))"

text \<open>The methods of the service that a submission calls.\<close>

definition validateQuizId_on :: "jsval \<Rightarrow> unit comp" where
  "validateQuizId_on quizId =
     (case validateQuizId quizId of Inl err \<Rightarrow> throw err | Inr u \<Rightarrow> return ())"

definition getQuiz_on :: "jsval \<Rightarrow> addr comp" where
  "getQuiz_on quizId =
     bind (validateQuizId_on quizId) (\<lambda>u s.
       case (case quizId of JStr key \<Rightarrow> map_of (quizzes_map s) key | _ \<Rightarrow> None) of
         None \<Rightarrow> throw (Error [Lit ''Quiz not found'']) s
       | Some quiz \<Rightarrow> return quiz s)"

fun validateAnswers_forEach_on :: "jsval list \<Rightarrow> addr \<Rightarrow> nat \<Rightarrow> jsval list \<Rightarrow> unit comp" where
  "validateAnswers_forEach_on questionIds answeredQuestionIds index [] = return ()"
| "validateAnswers_forEach_on questionIds answeredQuestionIds index (answer # rest) =
     (if \<not> truthy answer \<or> \<not> typeof_object answer
      then throw (Error [Lit ''Answer '', Num (index + 1), Lit '' must be an object''])
      else if \<not> truthy (get_prop answer ''questionId'')
      then throw (Error [Lit ''Answer '', Num (index + 1), Lit '' is missing questionId''])
      else if \<not> js_includes questionIds (get_prop answer ''questionId'')
      then throw (Error [Lit ''Question '', Val (get_prop answer ''questionId''),
                         Lit '' not found in this quiz''])
      else bind (read_set answeredQuestionIds) (\<lambda>answered.
        if js_includes answered (get_prop answer ''questionId'')
        then throw (Error [Lit ''Duplicate answer for question '',
                           Val (get_prop answer ''questionId'')])
        else bind (add answeredQuestionIds (get_prop answer ''questionId'')) (\<lambda>u.
          if \<not> truthy (get_prop answer ''selectedOptionIds'')
               \<or> \<not> isArray (get_prop answer ''selectedOptionIds'')
          then throw (Error [Lit ''Answer '', Num (index + 1),
                             Lit '' must have selectedOptionIds as an array''])
          else if get_prop answer ''selectedOptionIds'' = JArr []
          then throw (Error [Lit ''Answer '', Num (index + 1),
                             Lit '' must have at least one selected option''])
          else validateAnswers_forEach_on questionIds answeredQuestionIds (index + 1) rest)))"

definition validateAnswersFormat_on :: "jsval \<Rightarrow> addr \<Rightarrow> unit comp" where
  "validateAnswersFormat_on answers quiz =
     (case answers of
        JArr as \<Rightarrow>
          if length as = 0 then throw (Error [Lit ''At least one answer must be provided''])
          else bind (read_quiz quiz) (\<lambda>z.
            if length as > length (o_questions z)
            then throw (Error [Lit ''Number of answers exceeds number of questions''])
            else bind (question_ids (o_questions z)) (\<lambda>ids.
                 bind (alloc (Set_obj [])) (\<lambda>answeredQuestionIds.
                 validateAnswers_forEach_on (new_Set ids) answeredQuestionIds 0 as)))
      | _ \<Rightarrow> throw (Error [Lit ''Answers must be an array'']))"

definition getOptionDetails_on :: "addr \<Rightarrow> jsval list \<Rightarrow> option_detail list comp" where
  "getOptionDetails_on question optionIds =
     bind (read_question question) (\<lambda>q. return (getOptionDetails q optionIds))"

definition checkOptionIds_on :: "addr \<Rightarrow> jsval list \<Rightarrow> unit comp" where
  "checkOptionIds_on question ids =
     bind (read_question question) (\<lambda>q.
       case checkOptionIds q ids of Inl err \<Rightarrow> throw err | Inr u \<Rightarrow> return ())"

fun processAnswers_forEach_on :: "addr \<Rightarrow> addr \<Rightarrow> jsval list \<Rightarrow> unit comp" where
  "processAnswers_forEach_on quiz arr [] = return ()"
| "processAnswers_forEach_on quiz arr (answer # rest) =
     (if answer = JUndefined \<or> answer = JNull then throw TypeError
      else bind (findQuestionById_on quiz (get_prop answer ''questionId'')) (\<lambda>found.
        case found of
          None \<Rightarrow> throw TypeError
        | Some question \<Rightarrow>
            (case get_prop answer ''selectedOptionIds'' of
               JArr ids \<Rightarrow>
                 bind (checkOptionIds_on question ids) (\<lambda>u.
                 bind (isAnswerCorrect_on question (JArr ids)) (\<lambda>correct.
                 bind (read_question question) (\<lambda>q.
                 bind (getCorrectOptionIds_on question) (\<lambda>correctIds.
                 bind (getOptionDetails_on question ids) (\<lambda>selectedOptions.
                 bind (getCorrectOptionIds_on question) (\<lambda>correctIds'.
                 bind (getOptionDetails_on question correctIds') (\<lambda>correctOptions.
                 bind (push arr
                         \<lparr>r_questionId = get_prop answer ''questionId'',
                           r_questionText = q_text q,
                           r_questionType = q_type q,
                           r_selectedOptionIds = ids,
                           r_correctOptionIds = correctIds,
                           r_isCorrect = correct,
                           r_selectedOptions = selectedOptions,
                           r_correctOptions = correctOptions\<rparr>) (\<lambda>u'.
                 processAnswers_forEach_on quiz arr rest))))))))
             | _ \<Rightarrow> throw TypeError)))"

definition processAnswers_on :: "jsval \<Rightarrow> addr \<Rightarrow> addr comp" where
  "processAnswers_on answers quiz =
     bind (alloc (Array_obj [])) (\<lambda>arr.
       case answers of
         JArr as \<Rightarrow> bind (processAnswers_forEach_on quiz arr as) (\<lambda>u. return arr)
       | _ \<Rightarrow> throw TypeError)"

definition calculateStatistics_on :: "addr \<Rightarrow> nat \<Rightarrow> stats comp" where
  "calculateStatistics_on arr totalQuestions =
     bind (read_array arr) (\<lambda>rs. return (calculateStatistics rs totalQuestions))"

definition submitQuizAnswers_on :: "env \<Rightarrow> jsval \<Rightarrow> jsval \<Rightarrow> submission comp" where
  "submitQuizAnswers_on e quizId answers =
     bind (getQuiz_on quizId) (\<lambda>quiz.
     bind (read_quiz quiz) (\<lambda>z.
       if length (o_questions z) = 0 then throw (Error [Lit ''Quiz has no questions''])
       else bind (validateAnswersFormat_on answers quiz) (\<lambda>u.
            bind (processAnswers_on answers quiz) (\<lambda>arr.
            bind (read_quiz quiz) (\<lambda>z'.
            bind (calculateStatistics_on arr (length (o_questions z'))) (\<lambda>st.
            bind (read_array arr) (\<lambda>rs.
            return \<lparr>score = score st, total = total st, percentage = percentage st,
                    answeredCount = answeredCount st,
                    unansweredCount = unansweredCount st,
                    passed = passed st, grade = grade st,
                    results = rs, submittedAt = now e 0\<rparr>)))))))"


text \<open>
  A computation keeps the store below \<open>n\<close> when, started with at least \<open>n\<close>
  addresses in use, it leaves the \<open>Map\<close> of the service and every object below \<open>n\<close>
  as they were and frees no address.
\<close>

definition keeps :: "nat \<Rightarrow> 'a comp \<Rightarrow> bool" where
  "keeps n m =
     (\<forall>s r s'. n \<le> next_addr s \<longrightarrow> m s = (r, s') \<longrightarrow>
        quizzes_map s' = quizzes_map s \<and> next_addr s \<le> next_addr s'
        \<and> (\<forall>a < n. objs s' a = objs s a))"

definition store_ok :: "store \<Rightarrow> bool" where
  "store_ok s = (\<forall>a \<in> dom (objs s). a < next_addr s)"

text \<open>
  What the objects of a store stand for: the option, the question with its options and
  the quiz with its questions that are read through the \<open>options\<close> and \<open>questions\<close>
  fields of the objects at an address; nothing where an address holds no object of
  the expected class.
\<close>

definition option_at :: "store \<Rightarrow> addr \<Rightarrow> opt option" where
  "option_at s a = (case objs s a of Some (Option_obj option) \<Rightarrow> Some option | _ \<Rightarrow> None)"

fun options_at :: "store \<Rightarrow> addr list \<Rightarrow> opt list option" where
  "options_at s [] = Some []"
| "options_at s (a # as) =
     (case option_at s a of
        None \<Rightarrow> None
      | Some option \<Rightarrow> (case options_at s as of None \<Rightarrow> None | Some os \<Rightarrow> Some (option # os)))"

definition question_at :: "store \<Rightarrow> addr \<Rightarrow> question option" where
  "question_at s a =
     (case objs s a of
        Some (Question_obj n) \<Rightarrow>
          (case options_at s (n_options n) of
             None \<Rightarrow> None
           | Some os \<Rightarrow> Some \<lparr>q_id = n_id n, q_text = n_text n, q_type = n_type n,
                               q_options = os, q_createdAt = n_createdAt n\<rparr>)
      | _ \<Rightarrow> None)"

fun questions_at :: "store \<Rightarrow> addr list \<Rightarrow> question list option" where
  "questions_at s [] = Some []"
| "questions_at s (a # as) =
     (case question_at s a of
        None \<Rightarrow> None
      | Some q \<Rightarrow> (case questions_at s as of None \<Rightarrow> None | Some qs \<Rightarrow> Some (q # qs)))"

definition quiz_at :: "store \<Rightarrow> addr \<Rightarrow> quiz option" where
  "quiz_at s a =
     (case objs s a of
        Some (Quiz_obj z) \<Rightarrow>
          (case questions_at s (o_questions z) of
             None \<Rightarrow> None
           | Some qs \<Rightarrow> Some \<lparr>quiz_id = o_id z, title = o_title z, questions = qs,
                               createdAt = o_createdAt z, updatedAt = o_updatedAt z\<rparr>)
      | _ \<Rightarrow> None)"

text \<open>A store represents a service object when the two \<open>Map\<close>s have the same keys in
  the same order and the object under each key stands for the quiz under it.\<close>

definition represents :: "store \<Rightarrow> service \<Rightarrow> bool" where
  "represents s sv =
     list_all2 (\<lambda>ka kz. fst ka = fst kz \<and> quiz_at s (snd ka) = Some (snd kz))
       (quizzes_map s) (quizzes sv)"

text \<open>A later store: every object of the earlier one is still there, unchanged.\<close>

definition follows :: "store \<Rightarrow> store \<Rightarrow> bool" where
  "follows s0 s = (store_ok s \<and> (\<forall>b ob. objs s0 b = Some ob \<longrightarrow> objs s b = Some ob))"


section \<open>Example questions\<close>

text \<open>The two questions of the specification's first scenario, and a text question.\<close>

definition q_single :: question where
  "q_single = \<lparr>q_id = ''q1'', q_text = ''What is 2+2?'', q_type = JStr ''single_choice'',
     q_options = [\<lparr>opt_id = ''a1'', opt_text = ''3'', isCorrect = False\<rparr>,
                  \<lparr>opt_id = ''a2'', opt_text = ''4'', isCorrect = True\<rparr>,
                  \<lparr>opt_id = ''a3'', opt_text = ''5'', isCorrect = False\<rparr>],
     q_createdAt = ''2024-01-01T00:00:00.000Z''\<rparr>"

definition q_multi :: question where
  "q_multi = \<lparr>q_id = ''q2'', q_text = ''Select primes'', q_type = JStr ''multiple_choice'',
     q_options = [\<lparr>opt_id = ''b1'', opt_text = ''2'', isCorrect = True\<rparr>,
                  \<lparr>opt_id = ''b2'', opt_text = ''3'', isCorrect = True\<rparr>,
                  \<lparr>opt_id = ''b3'', opt_text = ''4'', isCorrect = False\<rparr>],
     q_createdAt = ''2024-01-01T00:00:01.000Z''\<rparr>"

definition q_text_kind :: question where
  "q_text_kind = \<lparr>q_id = ''q3'', q_text = ''Capital of France?'', q_type = JStr ''text'',
     q_options = [\<lparr>opt_id = ''c1'', opt_text = ''Paris'', isCorrect = True\<rparr>,
                  \<lparr>opt_id = ''c2'', opt_text = ''paris, France'', isCorrect = True\<rparr>,
                  \<lparr>opt_id = ''c3'', opt_text = ''Lyon'', isCorrect = False\<rparr>],
     q_createdAt = ''2024-01-01T00:00:02.000Z''\<rparr>"

text \<open>An environment, a payload whose three options are all marked correct, and a
  service holding one quiz without questions.\<close>

definition env0 :: env where
  "env0 = \<lparr>uuidv4 = (\<lambda>k. ''id-'' @ replicate k CHR ''i''),
            now = (\<lambda>k. if k = 0 then ''2024-01-01T00:00:00.000Z''
                       else ''2024-01-01T00:00:00.001Z'')\<rparr>"

definition data_all_correct :: jsval where
  "data_all_correct =
     JObj [(''text'', JStr ''Select primes''), (''type'', JStr ''multiple_choice''),
           (''options'', JArr [JObj [(''text'', JStr ''2''), (''isCorrect'', JBool True)],
                               JObj [(''text'', JStr ''3''), (''isCorrect'', JBool True)],
                               JObj [(''text'', JStr '' 5 ''), (''isCorrect'', JBool True)]])]"

definition quiz0 :: quiz where
  "quiz0 = \<lparr>quiz_id = ''id-'', title = ''Math Quiz'', questions = [],
             createdAt = ''2024-01-01T00:00:00.000Z'', updatedAt = ''2024-01-01T00:00:00.001Z''\<rparr>"

definition service0 :: service where
  "service0 = \<lparr>quizzes = [(''id-'', quiz0)]\<rparr>"

text \<open>A second environment, a payload that is accepted, the question that it makes,
  and the service after adding it.\<close>

definition env1 :: env where
  "env1 = \<lparr>uuidv4 = (\<lambda>k. ''qu-'' @ replicate k CHR ''i''),
            now = (\<lambda>k. if k = 0 then ''2024-01-01T00:00:01.000Z''
                       else ''2024-01-01T00:00:01.001Z'')\<rparr>"

definition data_primes :: jsval where
  "data_primes =
     JObj [(''text'', JStr '' Select primes''), (''type'', JStr ''multiple_choice''),
           (''options'', JArr [JObj [(''text'', JStr ''2''), (''isCorrect'', JBool True)],
                               JObj [(''text'', JStr ''3''), (''isCorrect'', JBool True)],
                               JObj [(''text'', JStr ''4'')]])]"

definition q_primes :: question where
  "q_primes = \<lparr>q_id = ''qu-'', q_text = ''Select primes'', q_type = JStr ''multiple_choice'',
     q_options = [\<lparr>opt_id = ''qu-i'', opt_text = ''2'', isCorrect = True\<rparr>,
                  \<lparr>opt_id = ''qu-ii'', opt_text = ''3'', isCorrect = True\<rparr>,
                  \<lparr>opt_id = ''qu-iii'', opt_text = ''4'', isCorrect = False\<rparr>],
     q_createdAt = ''2024-01-01T00:00:01.000Z''\<rparr>"

definition service1 :: service where
  "service1 = \<lparr>quizzes = [(''id-'', quiz0\<lparr>questions := [q_primes],
                                              updatedAt := ''2024-01-01T00:00:01.001Z''\<rparr>)]\<rparr>"

definition view1 :: jsval where
  "view1 = JArr [JObj [(''id'', JStr ''qu-''), (''text'', JStr ''Select primes''),
                       (''type'', JStr ''multiple_choice''),
                       (''options'', JArr [JObj [(''id'', JStr ''qu-i''), (''text'', JStr ''2'')],
                                           JObj [(''id'', JStr ''qu-ii''), (''text'', JStr ''3'')],
                                           JObj [(''id'', JStr ''qu-iii''), (''text'', JStr ''4'')]])]]"

text \<open>The quiz of the specification's scenarios with its two questions, a submission
  that answers both correctly, and one that answers the first question twice.\<close>

definition quiz2 :: quiz where
  "quiz2 = quiz0\<lparr>questions := [q_single, q_multi]\<rparr>"

definition service2 :: service where
  "service2 = \<lparr>quizzes = [(''id-'', quiz2)]\<rparr>"

definition answers_full :: jsval where
  "answers_full =
     JArr [JObj [(''questionId'', JStr ''q1''), (''selectedOptionIds'', JArr [JStr ''a2''])],
           JObj [(''questionId'', JStr ''q2''),
                 (''selectedOptionIds'', JArr [JStr ''b1'', JStr ''b2''])]]"

definition answers_twice :: jsval where
  "answers_twice =
     JArr [JObj [(''questionId'', JStr ''q1''), (''selectedOptionIds'', JArr [JStr ''a2''])],
           JObj [(''questionId'', JStr ''q1''), (''selectedOptionIds'', JArr [JStr ''a3''])]]"

text \<open>The result of the submission that answers both questions correctly, and a quiz
  of forty yes/no questions with a submission that answers the first twenty-three
  correctly and the others wrongly.\<close>

definition result_full :: submission where
  "result_full =
     \<lparr>score = 2, total = 2, percentage = 100, answeredCount = 2, unansweredCount = 0,
      passed = True, grade = ''A'',
      results =
        [\<lparr>r_questionId = JStr ''q1'', r_questionText = ''What is 2+2?'',
          r_questionType = JStr ''single_choice'',
          r_selectedOptionIds = [JStr ''a2''], r_correctOptionIds = [JStr ''a2''],
          r_isCorrect = True,
          r_selectedOptions = [\<lparr>od_id = ''a2'', od_text = ''4''\<rparr>],
          r_correctOptions = [\<lparr>od_id = ''a2'', od_text = ''4''\<rparr>]\<rparr>,
         \<lparr>r_questionId = JStr ''q2'', r_questionText = ''Select primes'',
          r_questionType = JStr ''multiple_choice'',
          r_selectedOptionIds = [JStr ''b1'', JStr ''b2''],
          r_correctOptionIds = [JStr ''b1'', JStr ''b2''],
          r_isCorrect = True,
          r_selectedOptions = [\<lparr>od_id = ''b1'', od_text = ''2''\<rparr>, \<lparr>od_id = ''b2'', od_text = ''3''\<rparr>],
          r_correctOptions = [\<lparr>od_id = ''b1'', od_text = ''2''\<rparr>, \<lparr>od_id = ''b2'', od_text = ''3''\<rparr>]\<rparr>],
      submittedAt = ''2024-01-01T00:00:01.000Z''\<rparr>"

definition question_n :: "nat \<Rightarrow> question" where
  "question_n i =
     \<lparr>q_id = ''q-'' @ replicate i CHR ''i'', q_text = ''Is it so?'',
      q_type = JStr ''single_choice'',
      q_options = [\<lparr>opt_id = ''y-'' @ replicate i CHR ''i'', opt_text = ''yes'', isCorrect = True\<rparr>,
                   \<lparr>opt_id = ''n-'' @ replicate i CHR ''i'', opt_text = ''no'', isCorrect = False\<rparr>],
      q_createdAt = ''2024-01-01T00:00:00.000Z''\<rparr>"

definition answer_n :: "nat \<Rightarrow> nat \<Rightarrow> jsval" where
  "answer_n k i =
     JObj [(''questionId'', JStr (''q-'' @ replicate i CHR ''i'')),
           (''selectedOptionIds'',
            JArr [JStr ((if i < k then ''y-'' else ''n-'') @ replicate i CHR ''i'')])]"

definition service40 :: service where
  "service40 = \<lparr>quizzes = [(''id-'', quiz0\<lparr>questions := map question_n [0..<40]\<rparr>)]\<rparr>"

definition answers40 :: jsval where
  "answers40 = JArr (map (answer_n 23) [0..<40])"

text \<open>The quiz of the scenarios as objects of a store: the quiz at address 0, its
  questions at 1 and 2, their options from 3 to 8.\<close>

definition store0 :: store where
  "store0 =
     \<lparr>quizzes_map = [(''id-'', 0)],
      objs = map_of
        [(0, Quiz_obj \<lparr>o_id = ''id-'', o_title = ''Math Quiz'', o_questions = [1, 2],
                        o_createdAt = ''2024-01-01T00:00:00.000Z'',
                        o_updatedAt = ''2024-01-01T00:00:00.001Z''\<rparr>),
         (1, Question_obj \<lparr>n_id = ''q1'', n_text = ''What is 2+2?'',
                            n_type = JStr ''single_choice'', n_options = [3, 4, 5],
                            n_createdAt = ''2024-01-01T00:00:00.000Z''\<rparr>),
         (2, Question_obj \<lparr>n_id = ''q2'', n_text = ''Select primes'',
                            n_type = JStr ''multiple_choice'', n_options = [6, 7, 8],
                            n_createdAt = ''2024-01-01T00:00:01.000Z''\<rparr>),
         (3, Option_obj \<lparr>opt_id = ''a1'', opt_text = ''3'', isCorrect = False\<rparr>),
         (4, Option_obj \<lparr>opt_id = ''a2'', opt_text = ''4'', isCorrect = True\<rparr>),
         (5, Option_obj \<lparr>opt_id = ''a3'', opt_text = ''5'', isCorrect = False\<rparr>),
         (6, Option_obj \<lparr>opt_id = ''b1'', opt_text = ''2'', isCorrect = True\<rparr>),
         (7, Option_obj \<lparr>opt_id = ''b2'', opt_text = ''3'', isCorrect = True\<rparr>),
         (8, Option_obj \<lparr>opt_id = ''b3'', opt_text = ''4'', isCorrect = False\<rparr>)],
      next_addr = 9\<rparr>"

section \<open>Facts about the value operations\<close>

lemma strict_eq_JStr_left [simp]: "strict_eq (JStr s) v \<longleftrightarrow> v = JStr s"
  by (cases v) auto

lemma strict_eq_JStr_right [simp]: "strict_eq v (JStr s) \<longleftrightarrow> v = JStr s"
  by (cases v) auto

lemma strict_eq_imp_eq: "strict_eq a b \<Longrightarrow> a = b"
  by (induction a b rule: strict_eq.induct) auto

lemma includes_imp_mem: "js_includes xs v \<Longrightarrow> v \<in> set xs"
  by (auto simp: js_includes_def list_ex_iff dest: strict_eq_imp_eq)

lemma includes_JStr [simp]: "js_includes xs (JStr s) \<longleftrightarrow> JStr s \<in> set xs"
  by (auto simp: js_includes_def list_ex_iff)

lemma includes_strings:
  assumes "set xs \<subseteq> range JStr"
  shows "js_includes xs v \<longleftrightarrow> v \<in> set xs"
proof
  assume "js_includes xs v"
  then show "v \<in> set xs" by (rule includes_imp_mem)
next
  assume "v \<in> set xs"
  with assms obtain s where "v = JStr s" by auto
  with \<open>v \<in> set xs\<close> show "js_includes xs v" by simp
qed


lemma set_foldl_Set_add: "set (foldl Set_add acc xs) = set acc \<union> set xs"
proof (induction xs arbitrary: acc)
  case Nil
  then show ?case by simp
next
  case (Cons x xs)
  have "set (Set_add acc x) = insert x (set acc)"
    by (auto simp: Set_add_def dest: includes_imp_mem)
  with Cons.IH [of "Set_add acc x"] show ?case by auto
qed

lemma set_new_Set [simp]: "set (new_Set xs) = set xs"
  by (simp add: new_Set_def set_foldl_Set_add)

lemma distinct_foldl_Set_add:
  "set acc \<union> set xs \<subseteq> range JStr \<Longrightarrow> distinct acc \<Longrightarrow> distinct (foldl Set_add acc xs)"
proof (induction xs arbitrary: acc)
  case Nil
  then show ?case by simp
next
  case (Cons x xs)
  from Cons.prems obtain s where x: "x = JStr s" by auto
  have d: "distinct (Set_add acc x)"
    using Cons.prems(2) by (simp add: Set_add_def x)
  have "set (Set_add acc x) \<union> set xs \<subseteq> range JStr"
    using Cons.prems(1) by (auto simp: Set_add_def)
  from Cons.IH [OF this d] show ?case by simp
qed

lemma distinct_new_Set: "set xs \<subseteq> range JStr \<Longrightarrow> distinct (new_Set xs)"
  by (simp add: new_Set_def distinct_foldl_Set_add)

lemma set_uniqueSelected: "set (uniqueSelected ids) = {v \<in> set ids. truthy v}"
  by (auto simp: uniqueSelected_def)

lemma allOptionsExist_iff:
  "allOptionsExist q u \<longleftrightarrow> set u \<subseteq> JStr ` opt_id ` set (q_options q)"
  by (auto simp: allOptionsExist_def list_all_iff list_ex_iff)

lemma set_getCorrectOptionIds:
  "set (getCorrectOptionIds q) = JStr ` opt_id ` {option \<in> set (q_options q). isCorrect option}"
  by (auto simp: getCorrectOptionIds_def)

lemma correct_ids_strings: "set (getCorrectOptionIds q) \<subseteq> range JStr"
  by (auto simp: getCorrectOptionIds_def)


lemma distinct_uniqueSelected:
  assumes "allOptionsExist q (uniqueSelected ids)"
  shows "distinct (uniqueSelected ids)"
proof -
  from assms have "set (uniqueSelected ids) \<subseteq> range JStr"
    by (auto simp: allOptionsExist_iff)
  then have "set (filter truthy ids) \<subseteq> range JStr"
    by (simp add: uniqueSelected_def)
  then show ?thesis
    unfolding uniqueSelected_def by (rule distinct_new_Set)
qed

lemma isAnswerCorrect_after_preamble:
  assumes "passes_preamble q sel"
  shows "isAnswerCorrect q sel =
     (if q_type q = JStr ''single_choice''
        then validateSingleChoice (selected_ids sel) (getCorrectOptionIds q)
      else if q_type q = JStr ''multiple_choice''
        then validateMultipleChoice (selected_ids sel) (getCorrectOptionIds q)
      else if q_type q = JStr ''text''
        then validateTextChoice (selected_ids sel) (getCorrectOptionIds q)
      else False)"
  using assms
  by (cases sel) (simp_all add: passes_preamble_def isAnswerCorrect_def selected_ids_def Let_def)

lemma selected_ids_strings:
  assumes "passes_preamble q sel"
  shows "set (selected_ids sel) \<subseteq> range JStr" and "distinct (selected_ids sel)"
proof -
  from assms obtain ids where sel: "sel = JArr ids"
    by (cases sel) (simp_all add: passes_preamble_def)
  with assms have ex: "allOptionsExist q (uniqueSelected ids)"
    by (simp add: passes_preamble_def)
  then show "set (selected_ids sel) \<subseteq> range JStr"
    by (auto simp: sel selected_ids_def allOptionsExist_iff)
  from ex show "distinct (selected_ids sel)"
    by (simp add: sel selected_ids_def distinct_uniqueSelected)
qed



lemma validateSingleChoice_iff:
  "validateSingleChoice S C \<longleftrightarrow> (\<exists>v. S = [v] \<and> js_includes C v)"
proof (cases S)
  case Nil
  then show ?thesis by (simp add: validateSingleChoice_def)
next
  case (Cons a as)
  then show ?thesis by (cases as) (auto simp: validateSingleChoice_def)
qed

lemma validateTextChoice_iff:
  assumes "set C \<subseteq> range JStr"
  shows "validateTextChoice S C \<longleftrightarrow> (\<exists>v \<in> set S. v \<in> set C)"
  using assms by (auto simp: validateTextChoice_def list_ex_iff includes_strings)

section \<open>Answer evaluation by question type\<close>


lemma passes_preamble_iff:
  "passes_preamble q (JArr ids) \<longleftrightarrow> evaluation_preamble q ids"
proof -
  have "uniqueSelected ids \<noteq> [] \<longleftrightarrow> (\<exists>v \<in> set ids. truthy v)"
    using set_uniqueSelected [of ids] by (cases "uniqueSelected ids") auto
  moreover have "getCorrectOptionIds q \<noteq> [] \<longleftrightarrow> (\<exists>option \<in> set (q_options q). isCorrect option)"
    by (auto simp: getCorrectOptionIds_def filter_empty_conv)
  moreover have "allOptionsExist q (uniqueSelected ids) \<longleftrightarrow>
      (\<forall>v \<in> set ids. truthy v \<longrightarrow> v \<in> JStr ` opt_id ` set (q_options q))"
    by (auto simp: allOptionsExist_iff set_uniqueSelected)
  ultimately show ?thesis
    by (simp add: passes_preamble_def evaluation_preamble_def)
qed

lemma correct_id_set_filter:
  "correct_id_set q = JStr ` opt_id ` set (filter isCorrect (q_options q))"
  by (simp add: correct_id_set_def)

lemma set_correct_ids: "set (getCorrectOptionIds q) = correct_id_set q"
  by (simp add: set_getCorrectOptionIds correct_id_set_def)

lemma distinct_singleton_iff:
  assumes "distinct xs"
  shows "xs = [v] \<longleftrightarrow> set xs = {v}"
proof
  assume "set xs = {v}"
  show "xs = [v]"
  proof (cases xs)
    case Nil
    with \<open>set xs = {v}\<close> show ?thesis by simp
  next
    case (Cons a as)
    with \<open>set xs = {v}\<close> have a: "a = v" and sub: "set as \<subseteq> {v}" by auto
    from assms Cons a have "v \<notin> set as" by simp
    with sub have "as = []" by (cases as) auto
    with Cons a show ?thesis by simp
  qed
qed simp

text \<open>
  Claim C2. For a question of type \<open>single_choice\<close> and an array that passes the
  evaluation preamble, \<open>isAnswerCorrect\<close> is true exactly when the truthy entries of
  the array are one id, however often it is repeated, and that id is the id of an option
  flagged correct.
\<close>

theorem single_choice_correct_iff_one_correct_id:
  assumes "q_type q = JStr ''single_choice''"
    and "evaluation_preamble q ids"
  shows "isAnswerCorrect q (JArr ids) \<longleftrightarrow>
           (\<exists>v. {x \<in> set ids. truthy x} = {v} \<and> v \<in> correct_id_set q)"
proof -
  have pre: "passes_preamble q (JArr ids)"
    using assms(2) by (simp add: passes_preamble_iff)
  have sel: "selected_ids (JArr ids) = uniqueSelected ids"
    by (simp add: selected_ids_def)
  have d: "distinct (uniqueSelected ids)"
    using selected_ids_strings(2) [OF pre] by (simp add: sel)
  have "isAnswerCorrect q (JArr ids) = validateSingleChoice (uniqueSelected ids) (getCorrectOptionIds q)"
    using assms(1) by (simp add: isAnswerCorrect_after_preamble [OF pre] sel)
  also have "\<dots> \<longleftrightarrow> (\<exists>v. uniqueSelected ids = [v] \<and> js_includes (getCorrectOptionIds q) v)"
    by (rule validateSingleChoice_iff)
  also have "\<dots> \<longleftrightarrow> (\<exists>v. uniqueSelected ids = [v] \<and> v \<in> correct_id_set q)"
    by (simp add: includes_strings [OF correct_ids_strings] set_correct_ids)
  also have "\<dots> \<longleftrightarrow> (\<exists>v. {x \<in> set ids. truthy x} = {v} \<and> v \<in> correct_id_set q)"
    by (simp add: distinct_singleton_iff [OF d] set_uniqueSelected)
  finally show ?thesis .
qed

text \<open>
  Claim C3. For a question of type \<open>text\<close> and an array that passes the evaluation
  preamble (so the question has a correct option), \<open>isAnswerCorrect\<close> is true exactly
  when some truthy entry of the array is the id of an option flagged correct. So a
  selection of incorrect option ids only gives false, and a selection holding a correct
  id next to incorrect ones gives true.
\<close>

theorem text_correct_iff_some_correct_id:
  assumes "q_type q = JStr ''text''"
    and "evaluation_preamble q ids"
  shows "(isAnswerCorrect q (JArr ids) \<longleftrightarrow> (\<exists>v \<in> set ids. truthy v \<and> v \<in> correct_id_set q))
       \<and> ((\<forall>v \<in> set ids. truthy v \<longrightarrow> v \<notin> correct_id_set q) \<longrightarrow> \<not> isAnswerCorrect q (JArr ids))
       \<and> (\<forall>c \<in> correct_id_set q. c \<in> set ids \<and> truthy c \<longrightarrow> isAnswerCorrect q (JArr ids))"
proof -
  have pre: "passes_preamble q (JArr ids)"
    using assms(2) by (simp add: passes_preamble_iff)
  have sel: "selected_ids (JArr ids) = uniqueSelected ids"
    by (simp add: selected_ids_def)
  have "isAnswerCorrect q (JArr ids) = validateTextChoice (uniqueSelected ids) (getCorrectOptionIds q)"
    using assms(1) by (simp add: isAnswerCorrect_after_preamble [OF pre] sel)
  also have "\<dots> \<longleftrightarrow> (\<exists>v \<in> set (uniqueSelected ids). v \<in> set (getCorrectOptionIds q))"
    by (rule validateTextChoice_iff [OF correct_ids_strings])
  also have "\<dots> \<longleftrightarrow> (\<exists>v \<in> set ids. truthy v \<and> v \<in> correct_id_set q)"
    by (auto simp: set_uniqueSelected set_correct_ids)
  finally have main: "isAnswerCorrect q (JArr ids) \<longleftrightarrow>
      (\<exists>v \<in> set ids. truthy v \<and> v \<in> correct_id_set q)" .
  then show ?thesis by blast
qed


theorem single_choice_correct_iff_one_correct_id_witness:
  "q_type q_single = JStr ''single_choice''
   \<and> evaluation_preamble q_single [JStr ''a2'', JNull, JStr ''a2'']
   \<and> isAnswerCorrect q_single (JArr [JStr ''a2'', JNull, JStr ''a2''])
   \<and> evaluation_preamble q_single [JStr ''a1'']
   \<and> \<not> isAnswerCorrect q_single (JArr [JStr ''a1''])
   \<and> evaluation_preamble q_single [JStr ''a2'', JStr ''a3'']
   \<and> \<not> isAnswerCorrect q_single (JArr [JStr ''a2'', JStr ''a3''])"
proof -
  have h: "q_type q_single = JStr ''single_choice''"
    by (simp add: q_single_def)
  have p1: "evaluation_preamble q_single [JStr ''a2'', JNull, JStr ''a2'']"
    and p2: "evaluation_preamble q_single [JStr ''a1'']"
    and p3: "evaluation_preamble q_single [JStr ''a2'', JStr ''a3'']"
    by (simp_all add: evaluation_preamble_def q_single_def)
  have c: "correct_id_set q_single = {JStr ''a2''}"
    by (simp add: correct_id_set_filter q_single_def)
  have s1: "{x \<in> set [JStr ''a2'', JNull, JStr ''a2'']. truthy x} = {JStr ''a2''}"
    and s2: "{x \<in> set [JStr ''a1'']. truthy x} = {JStr ''a1''}"
    and s3: "{x \<in> set [JStr ''a2'', JStr ''a3'']. truthy x} = {JStr ''a2'', JStr ''a3''}"
    by auto
  have yes: "isAnswerCorrect q_single (JArr [JStr ''a2'', JNull, JStr ''a2''])"
    using single_choice_correct_iff_one_correct_id [OF h p1] unfolding s1 c by simp
  have no1: "\<not> isAnswerCorrect q_single (JArr [JStr ''a1''])"
    using single_choice_correct_iff_one_correct_id [OF h p2] unfolding s2 c by simp
  have no2: "\<not> isAnswerCorrect q_single (JArr [JStr ''a2'', JStr ''a3''])"
    using single_choice_correct_iff_one_correct_id [OF h p3] unfolding s3 c by (auto simp: doubleton_eq_iff)
  from h p1 p2 p3 yes no1 no2 show ?thesis by blast
qed

theorem text_correct_iff_some_correct_id_witness:
  "q_type q_text_kind = JStr ''text''
   \<and> evaluation_preamble q_text_kind [JNull, JStr ''c1'']
   \<and> isAnswerCorrect q_text_kind (JArr [JNull, JStr ''c1''])
   \<and> evaluation_preamble q_text_kind [JStr ''c3'', JStr ''c2'', JStr ''c3'']
   \<and> isAnswerCorrect q_text_kind (JArr [JStr ''c3'', JStr ''c2'', JStr ''c3''])
   \<and> evaluation_preamble q_text_kind [JStr ''c3'', JStr ''c3'']
   \<and> \<not> isAnswerCorrect q_text_kind (JArr [JStr ''c3'', JStr ''c3''])"
proof -
  have h: "q_type q_text_kind = JStr ''text''"
    by (simp add: q_text_kind_def)
  have p1: "evaluation_preamble q_text_kind [JNull, JStr ''c1'']"
    and p2: "evaluation_preamble q_text_kind [JStr ''c3'', JStr ''c2'', JStr ''c3'']"
    and p3: "evaluation_preamble q_text_kind [JStr ''c3'', JStr ''c3'']"
    by (simp_all add: evaluation_preamble_def q_text_kind_def)
  have c: "correct_id_set q_text_kind = {JStr ''c1'', JStr ''c2''}"
    by (simp add: correct_id_set_filter q_text_kind_def)
  have yes1: "isAnswerCorrect q_text_kind (JArr [JNull, JStr ''c1''])"
    using text_correct_iff_some_correct_id [OF h p1] by (simp add: c)
  have yes2: "isAnswerCorrect q_text_kind (JArr [JStr ''c3'', JStr ''c2'', JStr ''c3''])"
    using text_correct_iff_some_correct_id [OF h p2] by (simp add: c)
  have no: "\<not> isAnswerCorrect q_text_kind (JArr [JStr ''c3'', JStr ''c3''])"
    using text_correct_iff_some_correct_id [OF h p3] by (simp add: c)
  from h p1 p2 p3 yes1 yes2 no show ?thesis by blast
qed

section \<open>Malformed selections\<close>










section \<open>Validation of a question\<close>

lemma length_correct_incorrect:
  "length (filter isCorrect os) + length (filter (\<lambda>option. \<not> isCorrect option) os) = length os"
  by (rule sum_length_filter_compl)

lemma trim_Nil [simp]: "trim [] = []"
  by (simp add: trim_def)

lemma validate_single_choice:
  assumes "q_type q = JStr ''single_choice''"
  shows "validate q = Inr True \<longleftrightarrow>
           trim (q_text q) \<noteq> [] \<and> length (filter isCorrect (q_options q)) = 1
           \<and> length (q_options q) \<ge> 2"
  using assms by (auto simp: validate_def validateByType_def Let_def)

lemma validate_multiple_choice:
  assumes "q_type q = JStr ''multiple_choice''"
  shows "validate q = Inr True \<longleftrightarrow>
           trim (q_text q) \<noteq> [] \<and> length (filter isCorrect (q_options q)) \<ge> 2
           \<and> length (filter (\<lambda>option. \<not> isCorrect option) (q_options q)) \<ge> 1
           \<and> length (q_options q) \<ge> 3"
  using assms length_correct_incorrect [of "q_options q"]
  by (auto simp: validate_def validateByType_def Let_def)

lemma validate_single_choice_messages:
  assumes "q_type q = JStr ''single_choice''" "trim (q_text q) \<noteq> []"
  shows "length (filter isCorrect (q_options q)) > 1 \<Longrightarrow>
           validate q = Inl (Error [Lit ''Single choice questions can only have one correct answer''])"
    and "length (filter isCorrect (q_options q)) = 1 \<Longrightarrow> length (q_options q) < 2 \<Longrightarrow>
           validate q = Inl (Error [Lit ''Single choice questions must have at least 2 options''])"
  using assms by (auto simp: validate_def validateByType_def Let_def)

lemma validate_multiple_choice_messages:
  assumes "q_type q = JStr ''multiple_choice''" "trim (q_text q) \<noteq> []"
  shows "length (filter isCorrect (q_options q)) = 1 \<Longrightarrow>
           validate q = Inl (Error [Lit ''Multiple choice questions must have at least 2 correct answers''])"
    and "length (filter isCorrect (q_options q)) \<ge> 2 \<Longrightarrow>
         length (filter (\<lambda>option. \<not> isCorrect option) (q_options q)) = 0 \<Longrightarrow>
           validate q = Inl (Error [Lit ''Multiple choice questions must have at least one incorrect option''])"
  using assms length_correct_incorrect [of "q_options q"]
  by (auto simp: validate_def validateByType_def Let_def)

lemma validate_no_correct_message:
  assumes "trim (q_text q) \<noteq> []" "q_options q \<noteq> []" "length (filter isCorrect (q_options q)) = 0"
  shows "validate q = Inl (Error [Lit ''At least one correct answer is required''])"
  using assms by (auto simp: validate_def)

lemma addQuestion_all_correct:
  "addQuestion env0 (JStr ''id-'') data_all_correct service0 =
     (Inl (Error [Lit ''Multiple choice questions must have at least one incorrect option'']), service0)"
  by (simp add: addQuestion_def getQuiz_def validateQuizId_def Map_get_def validateQuestionData_def
      data_all_correct_def service0_def quiz0_def trim_def js_whitespace_def js_includes_def
      Question_new_def env0_def Let_def addOptionsToQuestion_def addOption_def toLowerCase_def
      lower_char_def char_of_def validate_def validateByType_def)

text \<open>
  Claim C8. \<open>Question.validate\<close>, which \<open>addQuestion\<close> runs before it attaches the
  question, accepts a \<open>single_choice\<close> question exactly when its text is not blank, it
  has exactly one correct option and at least two options, and a \<open>multiple_choice\<close>
  question exactly when its text is not blank, it has at least two correct options, at
  least one incorrect option and at least three options. When a type rule is violated
  the error carries the message of that rule. Adding a \<open>multiple_choice\<close> question
  whose three options are all marked correct fails with the message
  \<open>Multiple choice questions must have at least one incorrect option\<close> and leaves the
  service as it was.
\<close>

theorem validate_type_rules:
  "(q_type q = JStr ''single_choice'' \<longrightarrow>
      (validate q = Inr True \<longleftrightarrow>
         trim (q_text q) \<noteq> [] \<and> length (filter isCorrect (q_options q)) = 1
         \<and> length (q_options q) \<ge> 2))
   \<and> (q_type q = JStr ''multiple_choice'' \<longrightarrow>
      (validate q = Inr True \<longleftrightarrow>
         trim (q_text q) \<noteq> [] \<and> length (filter isCorrect (q_options q)) \<ge> 2
         \<and> length (filter (\<lambda>option. \<not> isCorrect option) (q_options q)) \<ge> 1
         \<and> length (q_options q) \<ge> 3))
   \<and> (q_type q = JStr ''single_choice'' \<and> trim (q_text q) \<noteq> []
        \<and> length (filter isCorrect (q_options q)) > 1 \<longrightarrow>
      validate q = Inl (Error [Lit ''Single choice questions can only have one correct answer'']))
   \<and> (q_type q = JStr ''single_choice'' \<and> trim (q_text q) \<noteq> []
        \<and> length (filter isCorrect (q_options q)) = 1 \<and> length (q_options q) < 2 \<longrightarrow>
      validate q = Inl (Error [Lit ''Single choice questions must have at least 2 options'']))
   \<and> (q_type q = JStr ''multiple_choice'' \<and> trim (q_text q) \<noteq> []
        \<and> length (filter isCorrect (q_options q)) = 1 \<longrightarrow>
      validate q = Inl (Error [Lit ''Multiple choice questions must have at least 2 correct answers'']))
   \<and> (q_type q = JStr ''multiple_choice'' \<and> trim (q_text q) \<noteq> []
        \<and> length (filter isCorrect (q_options q)) \<ge> 2
        \<and> length (filter (\<lambda>option. \<not> isCorrect option) (q_options q)) = 0 \<longrightarrow>
      validate q = Inl (Error [Lit ''Multiple choice questions must have at least one incorrect option'']))
   \<and> addQuestion env0 (JStr ''id-'') data_all_correct service0 =
       (Inl (Error [Lit ''Multiple choice questions must have at least one incorrect option'']), service0)"
  using validate_single_choice [of q] validate_multiple_choice [of q]
    validate_single_choice_messages [of q] validate_multiple_choice_messages [of q]
    addQuestion_all_correct
  by blast

theorem validate_type_rules_witness:
  "(q_type q_single = JStr ''single_choice'' \<and> validate q_single = Inr True)
   \<and> (q_type q_multi = JStr ''multiple_choice'' \<and> validate q_multi = Inr True)
   \<and> (length (filter isCorrect (q_options (q_single\<lparr>q_options := map (isCorrect_update (\<lambda>b. True)) (q_options q_single)\<rparr>))) > 1
        \<and> validate (q_single\<lparr>q_options := map (isCorrect_update (\<lambda>b. True)) (q_options q_single)\<rparr>)
            = Inl (Error [Lit ''Single choice questions can only have one correct answer'']))
   \<and> (length (q_options (q_single\<lparr>q_options := [\<lparr>opt_id = ''a2'', opt_text = ''4'', isCorrect = True\<rparr>]\<rparr>)) < 2
        \<and> validate (q_single\<lparr>q_options := [\<lparr>opt_id = ''a2'', opt_text = ''4'', isCorrect = True\<rparr>]\<rparr>)
            = Inl (Error [Lit ''Single choice questions must have at least 2 options'']))
   \<and> (length (filter isCorrect (q_options (q_multi\<lparr>q_options := tl (q_options q_multi)\<rparr>))) = 1
        \<and> validate (q_multi\<lparr>q_options := tl (q_options q_multi)\<rparr>)
            = Inl (Error [Lit ''Multiple choice questions must have at least 2 correct answers'']))
   \<and> (length (filter (\<lambda>option. \<not> isCorrect option)
          (q_options (q_multi\<lparr>q_options := map (isCorrect_update (\<lambda>b. True)) (q_options q_multi)\<rparr>))) = 0
        \<and> validate (q_multi\<lparr>q_options := map (isCorrect_update (\<lambda>b. True)) (q_options q_multi)\<rparr>)
            = Inl (Error [Lit ''Multiple choice questions must have at least one incorrect option'']))"
proof -
  let ?s3 = "q_single\<lparr>q_options := map (isCorrect_update (\<lambda>b. True)) (q_options q_single)\<rparr>"
  let ?s1 = "q_single\<lparr>q_options := [\<lparr>opt_id = ''a2'', opt_text = ''4'', isCorrect = True\<rparr>]\<rparr>"
  let ?m1 = "q_multi\<lparr>q_options := tl (q_options q_multi)\<rparr>"
  let ?m3 = "q_multi\<lparr>q_options := map (isCorrect_update (\<lambda>b. True)) (q_options q_multi)\<rparr>"
  have ts: "trim ''What is 2+2?'' = ''What is 2+2?''" and tm: "trim ''Select primes'' = ''Select primes''"
    by (simp_all add: trim_def js_whitespace_def)
  have a: "q_type q_single = JStr ''single_choice''" "trim (q_text q_single) \<noteq> []"
    "length (filter isCorrect (q_options q_single)) = 1" "length (q_options q_single) \<ge> 2"
    by (simp_all add: q_single_def ts)
  have b: "q_type q_multi = JStr ''multiple_choice''" "trim (q_text q_multi) \<noteq> []"
    "length (filter isCorrect (q_options q_multi)) \<ge> 2"
    "length (filter (\<lambda>option. \<not> isCorrect option) (q_options q_multi)) \<ge> 1"
    "length (q_options q_multi) \<ge> 3"
    by (simp_all add: q_multi_def tm)
  have c: "q_type ?s3 = JStr ''single_choice''" "trim (q_text ?s3) \<noteq> []"
    "length (filter isCorrect (q_options ?s3)) > 1"
    by (simp_all add: q_single_def ts)
  have d: "q_type ?s1 = JStr ''single_choice''" "trim (q_text ?s1) \<noteq> []"
    "length (filter isCorrect (q_options ?s1)) = 1" "length (q_options ?s1) < 2"
    by (simp_all add: q_single_def ts)
  have e: "q_type ?m1 = JStr ''multiple_choice''" "trim (q_text ?m1) \<noteq> []"
    "length (filter isCorrect (q_options ?m1)) = 1"
    by (simp_all add: q_multi_def tm)
  have f: "q_type ?m3 = JStr ''multiple_choice''" "trim (q_text ?m3) \<noteq> []"
    "length (filter isCorrect (q_options ?m3)) \<ge> 2"
    "length (filter (\<lambda>option. \<not> isCorrect option) (q_options ?m3)) = 0"
    by (simp_all add: q_multi_def tm)
  have ra: "validate q_single = Inr True"
    using validate_type_rules [of q_single] a by blast
  have rb: "validate q_multi = Inr True"
    using validate_type_rules [of q_multi] b by blast
  have rc: "validate ?s3 = Inl (Error [Lit ''Single choice questions can only have one correct answer''])"
    using validate_type_rules [of ?s3] c by blast
  have rd: "validate ?s1 = Inl (Error [Lit ''Single choice questions must have at least 2 options''])"
    using validate_type_rules [of ?s1] d by blast
  have re: "validate ?m1 = Inl (Error [Lit ''Multiple choice questions must have at least 2 correct answers''])"
    using validate_type_rules [of ?m1] e by blast
  have rf: "validate ?m3 = Inl (Error [Lit ''Multiple choice questions must have at least one incorrect option''])"
    using validate_type_rules [of ?m3] f by blast
  from a(1) b(1) c(3) d(4) e(3) f(4) ra rb rc rd re rf show ?thesis by blast
qed

section \<open>What the service keeps true of its quizzes\<close>

lemma getQuiz_Inr:
  assumes "getQuiz s quizId = Inr z"
  shows "\<exists>key. quizId = JStr key \<and> map_of (quizzes s) key = Some z"
  using assms
  by (cases quizId)
     (auto simp: getQuiz_def validateQuizId_def Map_get_def split: if_splits option.splits)

lemma getQuiz_JStr:
  "getQuiz s (JStr key) =
     (if key = [] then Inl (Error [Lit ''Quiz ID is required''])
      else case map_of (quizzes s) key of
             None \<Rightarrow> Inl (Error [Lit ''Quiz not found''])
           | Some z \<Rightarrow> Inr z)"
  by (simp add: getQuiz_def validateQuizId_def Map_get_def)

lemma addOption_type:
  "addOption u t c q = Inr (option, q') \<Longrightarrow> q_type q' = q_type q"
  by (cases t) (auto simp: addOption_def Let_def split: if_splits)

lemma addOptions_forEach_type:
  "addOptions_forEach e index os texts q = Inr q' \<Longrightarrow> q_type q' = q_type q"
proof (induction os arbitrary: index texts q)
  case Nil
  then show ?case by simp
next
  case (Cons optionData rest)
  from Cons.prems obtain t where t: "get_prop optionData ''text'' = JStr t"
    by (cases "get_prop optionData ''text''") (auto split: if_splits)
  let ?c = "get_prop optionData ''isCorrect''"
  let ?add = "addOption (uuidv4 e (index + 1)) (JStr (trim t)) ?c q"
  from Cons.prems t obtain option q1 where
    add: "?add = Inr (option, q1)" and
    rest: "addOptions_forEach e (index + 1) rest (texts @ [toLowerCase (trim t)]) q1 = Inr q'"
    by (cases ?add) (auto simp: Let_def split: if_splits)
  from Cons.IH [OF rest] addOption_type [OF add] show ?case by simp
qed

lemma addOptionsToQuestion_type:
  "addOptionsToQuestion e q options = Inr q' \<Longrightarrow> q_type q' = q_type q"
  by (cases options)
     (auto simp: addOptionsToQuestion_def split: if_splits dest: addOptions_forEach_type)

lemma validateQuestionData_type:
  assumes "validateQuestionData d = Inr u"
  shows "get_prop d ''type'' \<in> valid_types"
proof -
  from assms obtain t where "get_prop d ''text'' = JStr t"
    by (cases "get_prop d ''text''") (auto simp: validateQuestionData_def split: if_splits)
  with assms have "js_includes [JStr ''single_choice'', JStr ''multiple_choice'', JStr ''text'']
      (get_prop d ''type'')"
    by (auto simp: validateQuestionData_def Let_def split: if_splits)
  then show ?thesis
    by (auto simp: valid_types_def dest: includes_imp_mem)
qed

lemma addQuestion_cases:
  obtains (failed) err where "addQuestion e quizId d s = (Inl err, s)"
  | (added) q key z where "quizId = JStr key" "map_of (quizzes s) key = Some z"
      "q_type q \<in> valid_types"
      "addQuestion e quizId d s =
         (Inr q, s\<lparr>quizzes := AList.update key (Quiz_addQuestion e q z) (quizzes s)\<rparr>)"
proof (cases "getQuiz s quizId")
  case (Inl err)
  then have "addQuestion e quizId d s = (Inl err, s)"
    by (simp add: addQuestion_def)
  then show ?thesis by (rule failed)
next
  case (Inr z)
  then obtain key where key: "quizId = JStr key" "map_of (quizzes s) key = Some z"
    using getQuiz_Inr by blast
  show ?thesis
  proof (cases "validateQuestionData d")
    case (Inl err)
    with Inr have "addQuestion e quizId d s = (Inl err, s)"
      by (simp add: addQuestion_def)
    then show ?thesis by (rule failed)
  next
    case vd: (Inr u)
    then have ty: "get_prop d ''type'' \<in> valid_types"
      by (rule validateQuestionData_type)
    then have nu: "get_prop d ''type'' \<noteq> JUndefined"
      by (auto simp: valid_types_def)
    show ?thesis
    proof (cases "get_prop d ''text''")
      case (JStr t)
      let ?q0 = "Question_new e (trim t) (get_prop d ''type'')"
      have q0: "q_type ?q0 = get_prop d ''type''"
        using nu by (simp add: Question_new_def)
      show ?thesis
      proof (cases "addOptionsToQuestion e ?q0 (get_prop d ''options'')")
        case (Inl err)
        with Inr vd JStr have "addQuestion e quizId d s = (Inl err, s)"
          by (simp add: addQuestion_def)
        then show ?thesis by (rule failed)
      next
        case ao: (Inr q)
        then have qt: "q_type q \<in> valid_types"
          using addOptionsToQuestion_type [OF ao] q0 ty by simp
        show ?thesis
        proof (cases "validate q")
          case (Inl err)
          with Inr vd JStr ao have "addQuestion e quizId d s = (Inl err, s)"
            by (simp add: addQuestion_def)
          then show ?thesis by (rule failed)
        next
          case va: (Inr ok)
          with Inr vd JStr ao key have "addQuestion e quizId d s =
              (Inr q, s\<lparr>quizzes := AList.update key (Quiz_addQuestion e q z) (quizzes s)\<rparr>)"
            by (simp add: addQuestion_def put_quiz_def)
          with key qt show ?thesis by (rule added)
        qed
      qed
    qed (use Inr vd in \<open>simp_all add: addQuestion_def failed\<close>)
  qed
qed

lemma questions_typed_update:
  assumes "questions_typed s" "\<forall>q \<in> set (questions z). q_type q \<in> valid_types"
  shows "questions_typed (s\<lparr>quizzes := AList.update key z (quizzes s)\<rparr>)"
  using assms by (auto simp: questions_typed_def update_conv' split: if_splits)

lemma questions_typed_createQuiz:
  assumes "questions_typed s"
  shows "questions_typed (snd (createQuiz e t s))"
proof (cases t)
  case (JStr str)
  have "\<forall>q \<in> set (questions (Quiz_new e (trim str))). q_type q \<in> valid_types"
    by (simp add: Quiz_new_def)
  with assms questions_typed_update show ?thesis
    by (simp add: createQuiz_def JStr Let_def)
qed (use assms in \<open>simp_all add: createQuiz_def\<close>)

lemma questions_typed_addQuestion:
  assumes "questions_typed s"
  shows "questions_typed (snd (addQuestion e quizId d s))"
proof (cases rule: addQuestion_cases [of e quizId d s])
  case (failed err)
  with assms show ?thesis by simp
next
  case (added q key z)
  from assms added(2) have "\<forall>q' \<in> set (questions z). q_type q' \<in> valid_types"
    by (auto simp: questions_typed_def)
  with added(3) have "\<forall>q' \<in> set (questions (Quiz_addQuestion e q z)). q_type q' \<in> valid_types"
    by (auto simp: Quiz_addQuestion_def)
  with assms have "questions_typed (s\<lparr>quizzes := AList.update key (Quiz_addQuestion e q z) (quizzes s)\<rparr>)"
    by (rule questions_typed_update)
  with added(4) show ?thesis by simp
qed

lemma questions_typed_deleteQuiz:
  assumes "questions_typed s"
  shows "questions_typed (snd (deleteQuiz quizId s))"
proof (cases "getQuiz s quizId")
  case (Inl err)
  with assms show ?thesis by (simp add: deleteQuiz_def)
next
  case (Inr z)
  then obtain key where "quizId = JStr key"
    using getQuiz_Inr by blast
  with Inr assms show ?thesis
    by (auto simp: deleteQuiz_def questions_typed_def delete_conv' split: if_splits)
qed

lemma questions_typed_updateQuizTitle:
  assumes "questions_typed s"
  shows "questions_typed (snd (updateQuizTitle e quizId t s))"
proof (cases "getQuiz s quizId")
  case (Inl err)
  with assms show ?thesis by (simp add: updateQuizTitle_def)
next
  case (Inr z)
  then obtain key where key: "quizId = JStr key" "map_of (quizzes s) key = Some z"
    using getQuiz_Inr by blast
  with assms have z: "\<forall>q \<in> set (questions z). q_type q \<in> valid_types"
    by (auto simp: questions_typed_def)
  show ?thesis
  proof (cases t)
    case (JStr str)
    have "questions_typed (s\<lparr>quizzes := AList.update key (z\<lparr>title := trim str, updatedAt := now e 0\<rparr>) (quizzes s)\<rparr>)"
      using assms z by (intro questions_typed_update) simp_all
    with Inr key assms show ?thesis
      by (simp add: updateQuizTitle_def JStr Let_def put_quiz_def)
  qed (use Inr assms in \<open>simp_all add: updateQuizTitle_def\<close>)
qed

lemma submitQuizAnswers_state: "snd (submitQuizAnswers e quizId answers s) = s"
  by (simp add: submitQuizAnswers_def Let_def split: sum.splits)

lemma reachable_questions_typed: "reachable s \<Longrightarrow> questions_typed s"
proof (induction rule: reachable.induct)
  case reachable_init
  show ?case by (simp add: questions_typed_def)
next
  case (reachable_createQuiz s e t)
  then show ?case by (simp add: questions_typed_createQuiz)
next
  case (reachable_addQuestion s e quizId questionData)
  then show ?case by (simp add: questions_typed_addQuestion)
next
  case (reachable_deleteQuiz s quizId)
  then show ?case by (simp add: questions_typed_deleteQuiz)
next
  case (reachable_updateQuizTitle s e quizId t)
  then show ?case by (simp add: questions_typed_updateQuizTitle)
next
  case (reachable_submitQuizAnswers s e quizId answers)
  then show ?case by (simp add: submitQuizAnswers_state)
next
  case (reachable_clearAll s)
  show ?case by (simp add: questions_typed_def clearAll_def)
qed

section \<open>The answer-free projection\<close>

lemma public_question_shape_getPublicView: "public_question_shape (getPublicView q)"
  by (simp add: public_question_shape_def getPublicView_def keys_of_def list_all_iff)

lemma getPublicView_no_isCorrect:
  assumes "q_type q \<in> valid_types"
  shows "\<not> mentions ''isCorrect'' (getPublicView q)"
  using assms by (auto simp: getPublicView_def valid_types_def)

lemma getQuestionsWithoutAnswers_answer_free:
  "answer_free (getQuestionsWithoutAnswers z)"
  by (simp add: answer_free_def getQuestionsWithoutAnswers_def list_all_iff
      public_question_shape_getPublicView)

lemma getQuestionsWithoutAnswers_no_isCorrect:
  assumes "\<forall>q \<in> set (questions z). q_type q \<in> valid_types"
  shows "\<not> mentions ''isCorrect'' (getQuestionsWithoutAnswers z)"
  using assms by (auto simp: getQuestionsWithoutAnswers_def dest: getPublicView_no_isCorrect)

lemma getQuizQuestions_Inr:
  assumes "getQuizQuestions s quizId = Inr v"
  shows "\<exists>key z. quizId = JStr key \<and> map_of (quizzes s) key = Some z
           \<and> v = getQuestionsWithoutAnswers z"
proof (cases "getQuiz s quizId")
  case (Inl err)
  with assms show ?thesis by (simp add: getQuizQuestions_def)
next
  case (Inr z)
  with assms have "v = getQuestionsWithoutAnswers z"
    by (simp add: getQuizQuestions_def split: if_splits)
  with getQuiz_Inr [OF Inr] show ?thesis by blast
qed

lemma getQuizQuestions_after_addQuestion:
  assumes "addQuestion e quizId d s = (Inr q, s')"
  shows "\<exists>vs. getQuizQuestions s' quizId = Inr (JArr (vs @ [getPublicView q]))"
proof (cases rule: addQuestion_cases [of e quizId d s])
  case (failed err)
  with assms show ?thesis by simp
next
  case (added q1 key z)
  with assms have q: "q1 = q"
    and s': "s' = s\<lparr>quizzes := AList.update key (Quiz_addQuestion e q z) (quizzes s)\<rparr>"
    by simp_all
  from added(1,2) have "key \<noteq> []"
    using getQuiz_JStr [of s key] assms
    by (auto simp: addQuestion_def)
  then have "getQuiz s' quizId = Inr (Quiz_addQuestion e q z)"
    by (simp add: getQuiz_JStr added(1) s' update_conv')
  then have "getQuizQuestions s' quizId =
      Inr (JArr (map getPublicView (questions z) @ [getPublicView q]))"
    by (simp add: getQuizQuestions_def Quiz_addQuestion_def getQuestionsWithoutAnswers_def)
  then show ?thesis by blast
qed

text \<open>
  Claim C9. In every state that the service can reach, the answer-free projection of a
  quiz (\<open>getQuizQuestions\<close>, through \<open>getQuestionsWithoutAnswers\<close> and
  \<open>getPublicView\<close>) is an array of objects with exactly the fields id, text, type and
  options, each option an object with exactly the fields id and text, and the property
  name \<open>isCorrect\<close> occurs nowhere in it. A question that \<open>addQuestion\<close> has just added
  is the last entry of the projection read back.
\<close>

theorem projection_never_exposes_isCorrect:
  assumes "reachable s"
  shows "(getQuizQuestions s quizId = Inr v \<longrightarrow> answer_free v \<and> \<not> mentions ''isCorrect'' v)
       \<and> (addQuestion e quizId d s = (Inr q, s') \<longrightarrow>
            (\<exists>vs. getQuizQuestions s' quizId = Inr (JArr (vs @ [getPublicView q]))
                  \<and> answer_free (JArr (vs @ [getPublicView q]))
                  \<and> \<not> mentions ''isCorrect'' (JArr (vs @ [getPublicView q]))))"
proof (intro conjI impI)
  have shape: "answer_free w \<and> \<not> mentions ''isCorrect'' w"
    if "reachable t" "getQuizQuestions t k = Inr w" for t k w
  proof -
    from that(2) obtain key z where z: "map_of (quizzes t) key = Some z"
      and w: "w = getQuestionsWithoutAnswers z"
      using getQuizQuestions_Inr by blast
    from that(1) have "questions_typed t"
      by (rule reachable_questions_typed)
    with z have "\<forall>q \<in> set (questions z). q_type q \<in> valid_types"
      by (auto simp: questions_typed_def)
    then show ?thesis
      using w getQuestionsWithoutAnswers_answer_free getQuestionsWithoutAnswers_no_isCorrect
      by simp
  qed
  show "answer_free v" "\<not> mentions ''isCorrect'' v" if "getQuizQuestions s quizId = Inr v"
    using shape [OF assms that] by simp_all
  show "\<exists>vs. getQuizQuestions s' quizId = Inr (JArr (vs @ [getPublicView q]))
          \<and> answer_free (JArr (vs @ [getPublicView q]))
          \<and> \<not> mentions ''isCorrect'' (JArr (vs @ [getPublicView q]))"
    if add: "addQuestion e quizId d s = (Inr q, s')"
  proof -
    from add obtain vs where vs: "getQuizQuestions s' quizId = Inr (JArr (vs @ [getPublicView q]))"
      using getQuizQuestions_after_addQuestion by blast
    have "reachable (snd (addQuestion e quizId d s))"
      using assms by (rule reachable_addQuestion)
    with add have "reachable s'" by simp
    from shape [OF this vs] vs show ?thesis by blast
  qed
qed

lemma createQuiz_example:
  "createQuiz env0 (JStr ''Math Quiz'') \<lparr>quizzes = []\<rparr> = (Inr quiz0, service0)"
  by (simp add: createQuiz_def trim_def js_whitespace_def Quiz_new_def env0_def quiz0_def
      service0_def Let_def)

lemma reachable_service0: "reachable service0"
proof -
  have "reachable (snd (createQuiz env0 (JStr ''Math Quiz'') \<lparr>quizzes = []\<rparr>))"
    using reachable_init by (rule reachable_createQuiz)
  then show ?thesis by (simp add: createQuiz_example)
qed

lemma addQuestion_example:
  "addQuestion env1 (JStr ''id-'') data_primes service0 = (Inr q_primes, service1)"
  by (simp add: addQuestion_def getQuiz_def validateQuizId_def Map_get_def validateQuestionData_def
      data_primes_def service0_def service1_def quiz0_def q_primes_def trim_def js_whitespace_def
      js_includes_def Question_new_def env1_def Let_def addOptionsToQuestion_def addOption_def
      toLowerCase_def lower_char_def char_of_def validate_def validateByType_def put_quiz_def
      Quiz_addQuestion_def)

lemma getQuizQuestions_example: "getQuizQuestions service1 (JStr ''id-'') = Inr view1"
  by (simp add: getQuizQuestions_def getQuiz_def validateQuizId_def Map_get_def service1_def
      quiz0_def q_primes_def view1_def getQuestionsWithoutAnswers_def getPublicView_def)

theorem projection_never_exposes_isCorrect_witness:
  "reachable service0
   \<and> addQuestion env1 (JStr ''id-'') data_primes service0 = (Inr q_primes, service1)
   \<and> getQuizQuestions service1 (JStr ''id-'') = Inr view1
   \<and> answer_free view1 \<and> \<not> mentions ''isCorrect'' view1"
proof -
  from projection_never_exposes_isCorrect [OF reachable_service0,
      of "JStr ''id-''" view1 env1 data_primes q_primes service1] addQuestion_example
  obtain vs where "getQuizQuestions service1 (JStr ''id-'') = Inr (JArr (vs @ [getPublicView q_primes]))"
    and "answer_free (JArr (vs @ [getPublicView q_primes]))"
    and "\<not> mentions ''isCorrect'' (JArr (vs @ [getPublicView q_primes]))"
    by blast
  with getQuizQuestions_example have "answer_free view1" "\<not> mentions ''isCorrect'' view1"
    by simp_all
  with reachable_service0 addQuestion_example getQuizQuestions_example show ?thesis
    by blast
qed

section \<open>The envelope check of a submission\<close>

lemma is_object_iff: "is_object a \<longleftrightarrow> truthy a \<and> typeof_object a"
  by (cases a) (simp_all add: is_object_def)

lemma nonempty_array_iff:
  "nonempty_array v \<longleftrightarrow> truthy v \<and> isArray v \<and> v \<noteq> JArr []"
  by (cases v) (simp_all add: nonempty_array_def)

lemma set_Set_add: "set (Set_add s v) = insert v (set s)"
  by (auto simp: Set_add_def dest: includes_imp_mem)

lemma validateAnswers_forEach_ok:
  assumes "set qids \<subseteq> range JStr"
  shows "validateAnswers_forEach qids index as answered = Inr () \<longleftrightarrow>
           (\<forall>a \<in> set as. is_object a \<and> truthy (get_prop a ''questionId'')
                          \<and> get_prop a ''questionId'' \<in> set qids
                          \<and> nonempty_array (get_prop a ''selectedOptionIds''))
           \<and> distinct (map (\<lambda>a. get_prop a ''questionId'') as)
           \<and> set (map (\<lambda>a. get_prop a ''questionId'') as) \<inter> set answered = {}"
proof (induction as arbitrary: index answered)
  case Nil
  show ?case by simp
next
  case (Cons a as)
  let ?k = "get_prop a ''questionId''"
  let ?ok = "is_object a \<and> truthy ?k \<and> ?k \<in> set qids \<and> ?k \<notin> set answered
             \<and> nonempty_array (get_prop a ''selectedOptionIds'')"
  have inc: "js_includes qids ?k \<longleftrightarrow> ?k \<in> set qids"
    using assms by (rule includes_strings)
  have ans: "js_includes answered ?k \<longleftrightarrow> ?k \<in> set answered" if "?k \<in> set qids"
  proof -
    from that assms obtain s where "?k = JStr s" by auto
    then show ?thesis by simp
  qed
  have step: "validateAnswers_forEach qids index (a # as) answered =
      validateAnswers_forEach qids (index + 1) as (Set_add answered ?k)" if "?ok"
    using that inc ans by (auto simp: is_object_iff nonempty_array_iff)
  have bad: "validateAnswers_forEach qids index (a # as) answered \<noteq> Inr ()" if "\<not> ?ok"
    using that inc ans by (auto simp: is_object_iff nonempty_array_iff)
  show ?case
  proof (cases ?ok)
    case True
    then have "validateAnswers_forEach qids index (a # as) answered =
        validateAnswers_forEach qids (index + 1) as (Set_add answered ?k)"
      by (rule step)
    with Cons.IH [of "index + 1" "Set_add answered ?k"] True show ?thesis
      by (auto simp: set_Set_add)
  next
    case False
    from bad [OF False] False show ?thesis by auto
  qed
qed

lemma question_ids_strings:
  "set (new_Set (map (\<lambda>q. JStr (q_id q)) (questions z))) \<subseteq> range JStr"
  by auto

lemma validateAnswersFormat_ok:
  "validateAnswersFormat answers z = Inr () \<longleftrightarrow> \<not> envelope_refused z answers"
proof (cases answers)
  case (JArr as)
  show ?thesis
  proof (cases "as = [] \<or> length as > length (questions z)")
    case True
    then show ?thesis
      by (auto simp: validateAnswersFormat_def envelope_refused_def JArr)
  next
    case False
    then have "validateAnswersFormat answers z =
        validateAnswers_forEach (new_Set (map (\<lambda>q. JStr (q_id q)) (questions z))) 0 as []"
      by (simp add: validateAnswersFormat_def JArr)
    with False show ?thesis
      by (simp add: validateAnswers_forEach_ok [OF question_ids_strings]
          envelope_refused_def entry_malformed_def JArr) blast
  qed
qed (simp_all add: validateAnswersFormat_def envelope_refused_def)

text \<open>
  Claim C6. The envelope check \<open>validateAnswersFormat\<close> throws exactly when the
  payload is not an array, is empty, has more entries than the quiz has questions, has
  an entry that is not an object, lacks \<open>questionId\<close>, names no question of the quiz
  or lacks \<open>selectedOptionIds\<close> as a non-empty array, or has two entries with the same
  \<open>questionId\<close>; otherwise it returns. For the empty array the message is
  \<open>At least one answer must be provided\<close>.
\<close>

theorem validateAnswersFormat_refuses_iff:
  "((\<exists>err. validateAnswersFormat answers z = Inl err) \<longleftrightarrow> envelope_refused z answers)
   \<and> (validateAnswersFormat answers z = Inr () \<longleftrightarrow> \<not> envelope_refused z answers)
   \<and> validateAnswersFormat (JArr []) z = Inl (Error [Lit ''At least one answer must be provided''])"
proof -
  have ok: "validateAnswersFormat answers z = Inr () \<longleftrightarrow> \<not> envelope_refused z answers"
    by (rule validateAnswersFormat_ok)
  have "(\<exists>err. validateAnswersFormat answers z = Inl err) \<longleftrightarrow> validateAnswersFormat answers z \<noteq> Inr ()"
    by (cases "validateAnswersFormat answers z") simp_all
  with ok have refused: "(\<exists>err. validateAnswersFormat answers z = Inl err) \<longleftrightarrow> envelope_refused z answers"
    by simp
  have "validateAnswersFormat (JArr []) z = Inl (Error [Lit ''At least one answer must be provided''])"
    by (simp add: validateAnswersFormat_def)
  with ok refused show ?thesis by blast
qed

theorem validateAnswersFormat_refuses_iff_witness:
  "\<not> envelope_refused quiz2 answers_full
   \<and> validateAnswersFormat answers_full quiz2 = Inr ()
   \<and> envelope_refused quiz2 answers_twice
   \<and> (\<exists>err. validateAnswersFormat answers_twice quiz2 = Inl err)"
proof -
  have a: "\<not> envelope_refused quiz2 answers_full"
    by (simp add: envelope_refused_def entry_malformed_def is_object_def nonempty_array_def
        answers_full_def quiz2_def quiz0_def q_single_def q_multi_def)
  have b: "envelope_refused quiz2 answers_twice"
    by (simp add: envelope_refused_def answers_twice_def)
  from validateAnswersFormat_refuses_iff [of answers_full quiz2] a
  have c: "validateAnswersFormat answers_full quiz2 = Inr ()" by blast
  from validateAnswersFormat_refuses_iff [of answers_twice quiz2] b
  have d: "\<exists>err. validateAnswersFormat answers_twice quiz2 = Inl err" by blast
  from a b c d show ?thesis by blast
qed

section \<open>Submitting leaves the service as it was\<close>

lemma keepsD:
  assumes "keeps n m" "n \<le> next_addr s" "m s = (r, s')"
  shows "quizzes_map s' = quizzes_map s" "next_addr s \<le> next_addr s'"
    "\<And>a. a < n \<Longrightarrow> objs s' a = objs s a"
  using assms unfolding keeps_def by blast+

lemma keepsI:
  assumes "\<And>s r s'. n \<le> next_addr s \<Longrightarrow> m s = (r, s') \<Longrightarrow>
     quizzes_map s' = quizzes_map s \<and> next_addr s \<le> next_addr s' \<and> (\<forall>a < n. objs s' a = objs s a)"
  shows "keeps n m"
  using assms unfolding keeps_def by blast

lemma keeps_return: "keeps n (return x)"
  by (rule keepsI) (simp add: return_def)

lemma keeps_throw: "keeps n (throw err)"
  by (rule keepsI) (simp add: throw_def)

lemma keeps_bind:
  assumes "keeps n m" and "\<And>x. keeps n (f x)"
  shows "keeps n (bind m f)"
proof (rule keepsI)
  fix s r s'
  assume n: "n \<le> next_addr s" and run: "bind m f s = (r, s')"
  obtain r1 s1 where m: "m s = (r1, s1)" by (cases "m s")
  note k1 = keepsD [OF assms(1) n m]
  show "quizzes_map s' = quizzes_map s \<and> next_addr s \<le> next_addr s'
      \<and> (\<forall>a < n. objs s' a = objs s a)"
  proof (cases r1)
    case (Inl err)
    with run m have "s' = s1" by (simp add: bind_def)
    with k1 show ?thesis by simp
  next
    case (Inr x)
    with run m have fx: "f x s1 = (r, s')" by (simp add: bind_def)
    have n1: "n \<le> next_addr s1" using n k1(2) by simp
    note k2 = keepsD [OF assms(2) n1 fx]
    from k1 k2 show ?thesis by simp
  qed
qed

text \<open>A new object lies at or above \<open>n\<close>, so what follows may write to it.\<close>

lemma keeps_alloc_bind:
  assumes "\<And>a. n \<le> a \<Longrightarrow> keeps n (f a)"
  shows "keeps n (bind (alloc ob) f)"
proof (rule keepsI)
  fix s r s'
  assume n: "n \<le> next_addr s" and run: "bind (alloc ob) f s = (r, s')"
  define s1 where "s1 = s\<lparr>objs := (objs s)(next_addr s \<mapsto> ob), next_addr := Suc (next_addr s)\<rparr>"
  from run have fx: "f (next_addr s) s1 = (r, s')"
    by (simp add: bind_def alloc_def s1_def)
  have n1: "n \<le> next_addr s1" using n by (simp add: s1_def)
  note k = keepsD [OF assms [OF n] n1 fx]
  have "quizzes_map s1 = quizzes_map s" "next_addr s \<le> next_addr s1"
    "\<And>a. a < n \<Longrightarrow> objs s1 a = objs s a"
    using n by (simp_all add: s1_def)
  with k show "quizzes_map s' = quizzes_map s \<and> next_addr s \<le> next_addr s'
      \<and> (\<forall>a < n. objs s' a = objs s a)"
    by simp
qed

lemma keeps_write_obj: "n \<le> a \<Longrightarrow> keeps n (write_obj a ob)"
  by (rule keepsI) (simp add: write_obj_def)

lemma keeps_read_quiz: "keeps n (read_quiz a)"
  by (rule keepsI) (auto simp: read_quiz_def split: option.splits obj.splits)

lemma keeps_read_question_obj: "keeps n (read_question_obj a)"
  by (rule keepsI) (auto simp: read_question_obj_def split: option.splits obj.splits)

lemma keeps_read_option: "keeps n (read_option a)"
  by (rule keepsI) (auto simp: read_option_def split: option.splits obj.splits)

lemma keeps_read_array: "keeps n (read_array a)"
  by (rule keepsI) (auto simp: read_array_def split: option.splits obj.splits)

lemma keeps_read_set: "keeps n (read_set a)"
  by (rule keepsI) (auto simp: read_set_def split: option.splits obj.splits)

lemma keeps_if: "keeps n a \<Longrightarrow> keeps n b \<Longrightarrow> keeps n (if c then a else b)"
  by simp

lemma keeps_case_sum:
  "(\<And>x. keeps n (f x)) \<Longrightarrow> (\<And>y. keeps n (g y)) \<Longrightarrow> keeps n (case v of Inl x \<Rightarrow> f x | Inr y \<Rightarrow> g y)"
  by (cases v) simp_all

lemma keeps_case_option:
  "keeps n f \<Longrightarrow> (\<And>y. keeps n (g y)) \<Longrightarrow> keeps n (case v of None \<Rightarrow> f | Some y \<Rightarrow> g y)"
  by (cases v) simp_all

lemma keeps_case_array:
  "(\<And>xs. keeps n (f xs)) \<Longrightarrow> keeps n g \<Longrightarrow> keeps n (case v of JArr xs \<Rightarrow> f xs | _ \<Rightarrow> g)"
  by (cases v) simp_all

lemmas keeps_rules =
  keeps_bind keeps_return keeps_throw keeps_if keeps_case_sum keeps_case_option keeps_case_array
  keeps_read_quiz keeps_read_question_obj keeps_read_option keeps_read_array keeps_read_set

lemma keeps_push: "n \<le> a \<Longrightarrow> keeps n (push a r)"
  unfolding push_def by (intro keeps_bind keeps_read_array keeps_write_obj)

lemma keeps_add: "n \<le> a \<Longrightarrow> keeps n (add a v)"
  unfolding add_def by (intro keeps_bind keeps_read_set keeps_write_obj)

lemma keeps_read_options: "keeps n (read_options as)"
  by (induction as) (simp_all add: keeps_rules)

lemma keeps_read_question: "keeps n (read_question a)"
  unfolding read_question_def by (intro keeps_rules keeps_read_options)

lemma keeps_getCorrectOptionIds_on: "keeps n (getCorrectOptionIds_on q)"
  unfolding getCorrectOptionIds_on_def by (intro keeps_rules keeps_read_question)

lemma keeps_isAnswerCorrect_on: "keeps n (isAnswerCorrect_on q sel)"
  unfolding isAnswerCorrect_on_def by (intro keeps_rules keeps_read_question)

lemma keeps_getOptionDetails_on: "keeps n (getOptionDetails_on q ids)"
  unfolding getOptionDetails_on_def by (intro keeps_rules keeps_read_question)

lemma keeps_checkOptionIds_on: "keeps n (checkOptionIds_on q ids)"
  unfolding checkOptionIds_on_def by (intro keeps_rules keeps_read_question)

lemma keeps_find_question: "keeps n (find_question as questionId)"
  by (induction as) (simp_all add: keeps_rules)

lemma keeps_findQuestionById_on: "keeps n (findQuestionById_on quiz questionId)"
  unfolding findQuestionById_on_def by (intro keeps_rules keeps_find_question)

lemma keeps_question_ids: "keeps n (question_ids as)"
  by (induction as) (simp_all add: keeps_rules)

lemma keeps_validateQuizId_on: "keeps n (validateQuizId_on quizId)"
  unfolding validateQuizId_on_def by (intro keeps_rules)

lemma keeps_getQuiz_on: "keeps n (getQuiz_on quizId)"
proof -
  have "keeps n (\<lambda>s. case (case quizId of JStr key \<Rightarrow> map_of (quizzes_map s) key | _ \<Rightarrow> None) of
         None \<Rightarrow> throw (Error [Lit ''Quiz not found'']) s
       | Some quiz \<Rightarrow> return quiz s)"
    by (rule keepsI) (auto simp: throw_def return_def split: option.splits)
  then show ?thesis
    unfolding getQuiz_on_def by (intro keeps_bind keeps_validateQuizId_on)
qed

lemma keeps_validateAnswers_forEach_on:
  "n \<le> answered \<Longrightarrow> keeps n (validateAnswers_forEach_on questionIds answered index as)"
proof (induction as arbitrary: index)
  case Nil
  show ?case by (simp add: keeps_return)
next
  case (Cons answer rest)
  note rest = Cons.IH [OF Cons.prems]
  note add = keeps_add [OF Cons.prems]
  show ?case
    unfolding validateAnswers_forEach_on.simps
    by (intro keeps_rules add rest)
qed

lemma keeps_validateAnswersFormat_on: "keeps n (validateAnswersFormat_on answers quiz)"
  unfolding validateAnswersFormat_on_def
  by (intro keeps_rules keeps_question_ids keeps_alloc_bind keeps_validateAnswers_forEach_on)

lemma keeps_processAnswers_forEach_on:
  "n \<le> arr \<Longrightarrow> keeps n (processAnswers_forEach_on quiz arr as)"
proof (induction as)
  case Nil
  show ?case by (simp add: keeps_return)
next
  case (Cons answer rest)
  note rest = Cons.IH [OF Cons.prems]
  note push = keeps_push [OF Cons.prems]
  show ?case
    unfolding processAnswers_forEach_on.simps
    by (intro keeps_rules keeps_findQuestionById_on keeps_checkOptionIds_on
        keeps_isAnswerCorrect_on keeps_read_question keeps_getCorrectOptionIds_on
        keeps_getOptionDetails_on push rest)
qed

lemma keeps_processAnswers_on: "keeps n (processAnswers_on answers quiz)"
  unfolding processAnswers_on_def
  by (intro keeps_alloc_bind keeps_rules keeps_processAnswers_forEach_on)

lemma keeps_calculateStatistics_on: "keeps n (calculateStatistics_on arr t)"
  unfolding calculateStatistics_on_def by (intro keeps_rules)

lemma keeps_submitQuizAnswers_on: "keeps n (submitQuizAnswers_on e quizId answers)"
  unfolding submitQuizAnswers_on_def
  by (intro keeps_rules keeps_getQuiz_on keeps_validateAnswersFormat_on keeps_processAnswers_on
      keeps_calculateStatistics_on)

text \<open>
  Claim C10. \<open>submitQuizAnswers\<close> changes nothing of the service: whether it returns
  a result or throws, the \<open>Map\<close> of quizzes is the same after the call, and so is
  every object that existed before it, that is every quiz with its title, its list of
  questions and its two time stamps, every question and every option. What the call
  writes, the array of results and the set of answered question ids, are objects that it
  has made itself.
\<close>

theorem submitQuizAnswers_on_changes_nothing:
  assumes "store_ok s"
    and "submitQuizAnswers_on e quizId answers s = (r, s')"
  shows "quizzes_map s' = quizzes_map s \<and> (\<forall>a \<in> dom (objs s). objs s' a = objs s a)"
proof -
  have k: "keeps (next_addr s) (submitQuizAnswers_on e quizId answers)"
    by (rule keeps_submitQuizAnswers_on)
  note d = keepsD [OF k order_refl assms(2)]
  from assms(1) d(1,3) show ?thesis
    by (auto simp: store_ok_def)
qed

lemma store_ok_store0: "store_ok store0"
  by (simp add: store_ok_def store0_def dom_map_of_conv_image_fst)

lemma run_full:
  "fst (submitQuizAnswers_on env1 (JStr ''id-'') answers_full store0) = Inr result_full"
  "next_addr (snd (submitQuizAnswers_on env1 (JStr ''id-'') answers_full store0)) = 11"
  by code_simp+

lemma run_twice:
  "fst (submitQuizAnswers_on env1 (JStr ''id-'') answers_twice store0)
     = Inl (Error [Lit ''Duplicate answer for question '', Val (JStr ''q1'')])"
  "objs (snd (submitQuizAnswers_on env1 (JStr ''id-'') answers_twice store0)) 9
     = Some (Set_obj [JStr ''q1''])"
  by code_simp+

theorem submitQuizAnswers_on_changes_nothing_witness:
  "store_ok store0
   \<and> fst (submitQuizAnswers_on env1 (JStr ''id-'') answers_full store0) = Inr result_full
   \<and> next_addr (snd (submitQuizAnswers_on env1 (JStr ''id-'') answers_full store0)) = 11
   \<and> quizzes_map (snd (submitQuizAnswers_on env1 (JStr ''id-'') answers_full store0))
       = quizzes_map store0
   \<and> objs (snd (submitQuizAnswers_on env1 (JStr ''id-'') answers_full store0)) 0 = objs store0 0
   \<and> objs (snd (submitQuizAnswers_on env1 (JStr ''id-'') answers_full store0)) 2 = objs store0 2
   \<and> objs (snd (submitQuizAnswers_on env1 (JStr ''id-'') answers_full store0)) 7 = objs store0 7
   \<and> fst (submitQuizAnswers_on env1 (JStr ''id-'') answers_twice store0)
       = Inl (Error [Lit ''Duplicate answer for question '', Val (JStr ''q1'')])
   \<and> objs (snd (submitQuizAnswers_on env1 (JStr ''id-'') answers_twice store0)) 9
       = Some (Set_obj [JStr ''q1''])
   \<and> objs (snd (submitQuizAnswers_on env1 (JStr ''id-'') answers_twice store0)) 0 = objs store0 0"
proof -
  let ?full = "submitQuizAnswers_on env1 (JStr ''id-'') answers_full store0"
  let ?twice = "submitQuizAnswers_on env1 (JStr ''id-'') answers_twice store0"
  have d: "0 \<in> dom (objs store0)" "2 \<in> dom (objs store0)" "7 \<in> dom (objs store0)"
    by (simp_all add: store0_def dom_map_of_conv_image_fst)
  have "?full = (fst ?full, snd ?full)" by simp
  from submitQuizAnswers_on_changes_nothing [OF store_ok_store0 this] d
  have f: "quizzes_map (snd ?full) = quizzes_map store0"
    "objs (snd ?full) 0 = objs store0 0" "objs (snd ?full) 2 = objs store0 2"
    "objs (snd ?full) 7 = objs store0 7"
    by blast+
  have "?twice = (fst ?twice, snd ?twice)" by simp
  from submitQuizAnswers_on_changes_nothing [OF store_ok_store0 this] d
  have t: "objs (snd ?twice) 0 = objs store0 0"
    by blast
  from store_ok_store0 run_full run_twice f t show ?thesis by simp
qed

section \<open>The store and the values agree on a submission\<close>

text \<open>
  On a store that represents the service object, each method that a submission calls
  returns what the method on values returns, and so does the submission.
\<close>

lemma followsD: "follows s0 s \<Longrightarrow> objs s0 b = Some ob \<Longrightarrow> objs s b = Some ob"
  by (simp add: follows_def)

lemma follows_refl: "store_ok s \<Longrightarrow> follows s s"
  by (simp add: follows_def)

lemma follows_fresh:
  assumes "follows s0 s"
  shows "next_addr s \<notin> dom (objs s0)"
proof
  assume "next_addr s \<in> dom (objs s0)"
  with assms have "next_addr s \<in> dom (objs s)"
    by (auto dest: followsD)
  with assms show False
    by (auto simp: follows_def store_ok_def)
qed

lemma option_at_follows:
  "follows s0 s \<Longrightarrow> option_at s0 a = Some option \<Longrightarrow> option_at s a = Some option"
  by (auto simp: option_at_def split: option.splits obj.splits dest: followsD)

lemma options_at_follows:
  "follows s0 s \<Longrightarrow> options_at s0 as = Some os \<Longrightarrow> options_at s as = Some os"
  by (induction as arbitrary: os) (auto split: option.splits dest: option_at_follows)

lemma question_at_follows:
  assumes "follows s0 s" "question_at s0 a = Some q"
  shows "question_at s a = Some q"
proof -
  from assms(2) obtain n os where n: "objs s0 a = Some (Question_obj n)"
    and os: "options_at s0 (n_options n) = Some os"
    and q: "q = \<lparr>q_id = n_id n, q_text = n_text n, q_type = n_type n,
                  q_options = os, q_createdAt = n_createdAt n\<rparr>"
    by (auto simp: question_at_def split: option.splits obj.splits)
  from assms(1) n have "objs s a = Some (Question_obj n)"
    by (rule followsD)
  with options_at_follows [OF assms(1) os] q show ?thesis
    by (simp add: question_at_def)
qed

lemma questions_at_follows:
  "follows s0 s \<Longrightarrow> questions_at s0 as = Some qs \<Longrightarrow> questions_at s as = Some qs"
  by (induction as arbitrary: qs) (auto split: option.splits dest: question_at_follows)

lemma quiz_at_follows:
  assumes "follows s0 s" "quiz_at s0 a = Some z"
  shows "quiz_at s a = Some z"
proof -
  from assms(2) obtain zo qs where zo: "objs s0 a = Some (Quiz_obj zo)"
    and qs: "questions_at s0 (o_questions zo) = Some qs"
    and z: "z = \<lparr>quiz_id = o_id zo, title = o_title zo, questions = qs,
                  createdAt = o_createdAt zo, updatedAt = o_updatedAt zo\<rparr>"
    by (auto simp: quiz_at_def split: option.splits obj.splits)
  from assms(1) zo have "objs s a = Some (Quiz_obj zo)"
    by (rule followsD)
  with questions_at_follows [OF assms(1) qs] z show ?thesis
    by (simp add: quiz_at_def)
qed

lemma read_options_eq:
  "options_at s as = Some os \<Longrightarrow> read_options as s = (Inr os, s)"
  by (induction as arbitrary: os)
     (auto simp: return_def bind_def read_option_def option_at_def split: option.splits obj.splits)

lemma read_question_eq:
  "question_at s a = Some q \<Longrightarrow> read_question a s = (Inr q, s)"
  by (auto simp: question_at_def read_question_def bind_def read_question_obj_def return_def
      read_options_eq split: option.splits obj.splits)

lemma question_obj_of:
  "question_at s a = Some q \<Longrightarrow> \<exists>n. read_question_obj a s = (Inr n, s) \<and> n_id n = q_id q"
  by (auto simp: question_at_def read_question_obj_def split: option.splits obj.splits)

lemma question_ids_eq:
  "questions_at s as = Some qs \<Longrightarrow> question_ids as s = (Inr (map (\<lambda>q. JStr (q_id q)) qs), s)"
proof (induction as arbitrary: qs)
  case Nil
  then show ?case by (simp add: return_def)
next
  case (Cons a as)
  from Cons.prems obtain q qs' where q: "question_at s a = Some q"
    and qs': "questions_at s as = Some qs'" and qs: "qs = q # qs'"
    by (auto split: option.splits)
  from question_obj_of [OF q] obtain n where
    n: "read_question_obj a s = (Inr n, s)" "n_id n = q_id q" by blast
  with Cons.IH [OF qs'] qs show ?case
    by (simp add: bind_def return_def)
qed

lemma find_question_eq:
  assumes "questions_at s as = Some qs"
  shows "\<exists>r. find_question as questionId s = (Inr r, s)
           \<and> rel_option (\<lambda>a q. question_at s a = Some q) r
                (find (\<lambda>q. strict_eq (JStr (q_id q)) questionId) qs)"
  using assms
proof (induction as arbitrary: qs)
  case Nil
  then show ?case by (simp add: return_def)
next
  case (Cons a as)
  from Cons.prems obtain q qs' where q: "question_at s a = Some q"
    and qs': "questions_at s as = Some qs'" and qs: "qs = q # qs'"
    by (auto split: option.splits)
  from question_obj_of [OF q] obtain n where
    n: "read_question_obj a s = (Inr n, s)" "n_id n = q_id q" by blast
  show ?case
  proof (cases "strict_eq (JStr (q_id q)) questionId")
    case True
    with n q qs show ?thesis
      by (simp add: bind_def return_def)
  next
    case False
    with n qs Cons.IH [OF qs'] show ?thesis
      by (simp add: bind_def)
  qed
qed


lemma follows_write:
  assumes "follows s0 s" "objs s0 a = None" "objs s a = Some old"
  shows "follows s0 (s\<lparr>objs := (objs s)(a \<mapsto> ob)\<rparr>)"
proof -
  have "store_ok (s\<lparr>objs := (objs s)(a \<mapsto> ob)\<rparr>)"
    using assms(1,3) by (auto simp: follows_def store_ok_def)
  moreover have "objs (s\<lparr>objs := (objs s)(a \<mapsto> ob)\<rparr>) b = Some x" if "objs s0 b = Some x" for b x
    using that assms(1,2) by (auto dest: followsD)
  ultimately show ?thesis
    by (simp add: follows_def)
qed

lemma follows_alloc:
  assumes "follows s0 s"
  shows "follows s0 (s\<lparr>objs := (objs s)(next_addr s \<mapsto> ob), next_addr := Suc (next_addr s)\<rparr>)"
proof -
  let ?s1 = "s\<lparr>objs := (objs s)(next_addr s \<mapsto> ob), next_addr := Suc (next_addr s)\<rparr>"
  have "store_ok ?s1"
    using assms by (auto simp: follows_def store_ok_def less_Suc_eq)
  moreover have "objs ?s1 b = Some x" if "objs s0 b = Some x" for b x
  proof -
    from that have "b \<in> dom (objs s0)" by auto
    with follows_fresh [OF assms] have "b \<noteq> next_addr s" by auto
    with followsD [OF assms that] show ?thesis by simp
  qed
  ultimately show ?thesis
    by (simp add: follows_def)
qed

lemma add_eq:
  assumes "objs s a = Some (Set_obj acc)"
  shows "add a v s = (Inr (), s\<lparr>objs := (objs s)(a \<mapsto> Set_obj (Set_add acc v))\<rparr>)"
  using assms by (simp add: add_def bind_def read_set_def write_obj_def)

lemma push_eq:
  assumes "objs s a = Some (Array_obj acc)"
  shows "push a r s = (Inr (), s\<lparr>objs := (objs s)(a \<mapsto> Array_obj (acc @ [r]))\<rparr>)"
  using assms by (simp add: push_def bind_def read_array_def write_obj_def)

lemma validateAnswers_forEach_on_eq:
  assumes "objs s answered = Some (Set_obj acc)" "objs s0 answered = None" "follows s0 s"
  shows "\<exists>s'. validateAnswers_forEach_on qids answered index as s
                 = (validateAnswers_forEach qids index as acc, s')
              \<and> follows s0 s'"
  using assms
proof (induction as arbitrary: index acc s)
  case Nil
  then show ?case by (simp add: return_def)
next
  case (Cons answer rest)
  let ?k = "get_prop answer ''questionId''"
  let ?s1 = "s\<lparr>objs := (objs s)(answered \<mapsto> Set_obj (Set_add acc ?k))\<rparr>"
  have rs: "read_set answered s = (Inr acc, s)"
    using Cons.prems(1) by (simp add: read_set_def)
  have ad: "add answered ?k s = (Inr (), ?s1)"
    using Cons.prems(1) by (rule add_eq)
  have f1: "follows s0 ?s1"
    using Cons.prems(3,2,1) by (rule follows_write)
  have o1: "objs ?s1 answered = Some (Set_obj (Set_add acc ?k))"
    by simp
  from Cons.IH [OF o1 Cons.prems(2) f1, of "index + 1"] obtain s' where
    rec: "validateAnswers_forEach_on qids answered (index + 1) rest ?s1
        = (validateAnswers_forEach qids (index + 1) rest (Set_add acc ?k), s')"
    and f': "follows s0 s'"
    by blast
  show ?case
    using rs ad f1 rec f' Cons.prems(3)
    by (auto simp: bind_def throw_def)
qed

lemma read_quiz_of:
  assumes "quiz_at s a = Some z"
  shows "\<exists>zo. read_quiz a s = (Inr zo, s) \<and> questions_at s (o_questions zo) = Some (questions z)
              \<and> length (o_questions zo) = length (questions z)"
proof -
  from assms obtain zo qs where zo: "objs s a = Some (Quiz_obj zo)"
    and qs: "questions_at s (o_questions zo) = Some qs" and z: "questions z = qs"
    by (auto simp: quiz_at_def split: option.splits obj.splits)
  have "length as = length ps" if "questions_at s as = Some ps" for as ps
    using that by (induction as arbitrary: ps) (auto split: option.splits)
  with zo qs z show ?thesis
    by (auto simp: read_quiz_def)
qed

lemma validateAnswersFormat_on_eq:
  assumes "follows s0 s" "quiz_at s a = Some z"
  shows "\<exists>s'. validateAnswersFormat_on answers a s = (validateAnswersFormat answers z, s')
              \<and> follows s0 s'"
proof (cases answers)
  case (JArr as)
  from read_quiz_of [OF assms(2)] obtain zo where
    zo: "read_quiz a s = (Inr zo, s)" "questions_at s (o_questions zo) = Some (questions z)"
      "length (o_questions zo) = length (questions z)"
    by blast
  let ?ids = "map (\<lambda>q. JStr (q_id q)) (questions z)"
  have ids: "question_ids (o_questions zo) s = (Inr ?ids, s)"
    using zo(2) by (rule question_ids_eq)
  let ?s1 = "s\<lparr>objs := (objs s)(next_addr s \<mapsto> Set_obj []), next_addr := Suc (next_addr s)\<rparr>"
  have f1: "follows s0 ?s1"
    using assms(1) by (rule follows_alloc)
  have fresh: "objs s0 (next_addr s) = None"
    using follows_fresh [OF assms(1)] by auto
  have o1: "objs ?s1 (next_addr s) = Some (Set_obj [])"
    by simp
  from validateAnswers_forEach_on_eq [OF o1 fresh f1, of "new_Set ?ids" 0 as] obtain s' where
    loop: "validateAnswers_forEach_on (new_Set ?ids) (next_addr s) 0 as ?s1
        = (validateAnswers_forEach (new_Set ?ids) 0 as [], s')"
    and f': "follows s0 s'"
    by blast
  show ?thesis
    using zo(1,3) ids loop f' assms(1)
    by (auto simp: validateAnswersFormat_on_def validateAnswersFormat_def JArr bind_def throw_def
        alloc_def)
qed (use assms(1) in \<open>simp_all add: validateAnswersFormat_on_def validateAnswersFormat_def throw_def\<close>)


lemma findQuestionById_on_eq:
  assumes "quiz_at s a = Some z"
  shows "\<exists>r. findQuestionById_on a questionId s = (Inr r, s)
           \<and> rel_option (\<lambda>qa q. question_at s qa = Some q) r (findQuestionById z questionId)"
proof -
  from read_quiz_of [OF assms] obtain zo where
    zo: "read_quiz a s = (Inr zo, s)" "questions_at s (o_questions zo) = Some (questions z)"
    by blast
  from find_question_eq [OF zo(2), of questionId] zo(1) show ?thesis
    by (simp add: findQuestionById_on_def findQuestionById_def bind_def)
qed

lemma question_methods_eq:
  assumes "question_at s qa = Some q"
  shows "getCorrectOptionIds_on qa s = (Inr (getCorrectOptionIds q), s)"
    and "isAnswerCorrect_on qa sel s = (Inr (isAnswerCorrect q sel), s)"
    and "getOptionDetails_on qa ids s = (Inr (getOptionDetails q ids), s)"
    and "checkOptionIds_on qa ids s =
           (case checkOptionIds q ids of Inl err \<Rightarrow> (Inl err, s) | Inr u \<Rightarrow> (Inr (), s))"
  using read_question_eq [OF assms]
  by (simp_all add: getCorrectOptionIds_on_def isAnswerCorrect_on_def getOptionDetails_on_def
      checkOptionIds_on_def bind_def return_def throw_def split: sum.splits)

lemma processAnswers_forEach_on_eq:
  assumes "objs s arr = Some (Array_obj acc)" "objs s0 arr = None" "follows s0 s"
    and "quiz_at s0 a = Some z"
  shows "\<exists>r s'. processAnswers_forEach_on a arr as s = (r, s') \<and> follows s0 s'
           \<and> (case processAnswers_forEach z as acc of
                 Inl err \<Rightarrow> r = Inl err
               | Inr rs \<Rightarrow> r = Inr () \<and> objs s' arr = Some (Array_obj rs))"
  using assms(1,3)
proof (induction as arbitrary: acc s)
  case Nil
  then show ?case by (simp add: return_def)
next
  case (Cons answer rest)
  note fs = Cons.prems(2)
  have za: "quiz_at s a = Some z"
    using fs assms(4) by (rule quiz_at_follows)
  show ?case
  proof (cases "answer = JUndefined \<or> answer = JNull")
    case True
    with fs show ?thesis by (auto simp: throw_def)
  next
    case ok: False
    let ?k = "get_prop answer ''questionId''"
    from findQuestionById_on_eq [OF za, of ?k] obtain found where
      fd: "findQuestionById_on a ?k s = (Inr found, s)"
      and rel: "rel_option (\<lambda>qa q. question_at s qa = Some q) found (findQuestionById z ?k)"
      by blast
    show ?thesis
    proof (cases "findQuestionById z ?k")
      case None
      with rel have "found = None" by simp
      with ok fd None fs show ?thesis
        by (simp add: bind_def throw_def)
    next
      case (Some q)
      with rel obtain qa where found: "found = Some qa" and q: "question_at s qa = Some q"
        by (cases found) simp_all
      note m = question_methods_eq [OF q] read_question_eq [OF q]
      show ?thesis
      proof (cases "get_prop answer ''selectedOptionIds''")
        case (JArr ids)
        show ?thesis
        proof (cases "checkOptionIds q ids")
          case (Inl err)
          with ok fd found Some JArr m fs show ?thesis
            by (simp add: bind_def throw_def)
        next
          case (Inr u)
          let ?r = "\<lparr>r_questionId = ?k, r_questionText = q_text q, r_questionType = q_type q,
                     r_selectedOptionIds = ids, r_correctOptionIds = getCorrectOptionIds q,
                     r_isCorrect = isAnswerCorrect q (JArr ids),
                     r_selectedOptions = getOptionDetails q ids,
                     r_correctOptions = getOptionDetails q (getCorrectOptionIds q)\<rparr>"
          let ?s1 = "s\<lparr>objs := (objs s)(arr \<mapsto> Array_obj (acc @ [?r]))\<rparr>"
          have pu: "push arr ?r s = (Inr (), ?s1)"
            using Cons.prems(1) by (rule push_eq)
          have f1: "follows s0 ?s1"
            using fs assms(2) Cons.prems(1) by (rule follows_write)
          have o1: "objs ?s1 arr = Some (Array_obj (acc @ [?r]))"
            by simp
          from Cons.IH [OF o1 f1] obtain r s' where
            rec: "processAnswers_forEach_on a arr rest ?s1 = (r, s')" and f': "follows s0 s'"
            and res: "case processAnswers_forEach z rest (acc @ [?r]) of
                 Inl err \<Rightarrow> r = Inl err
               | Inr rs \<Rightarrow> r = Inr () \<and> objs s' arr = Some (Array_obj rs)"
            by blast
          have "processAnswers_forEach_on a arr (answer # rest) s = (r, s')"
            using ok fd found JArr Inr m pu rec
            by (simp add: bind_def return_def)
          moreover have "processAnswers_forEach z (answer # rest) acc
              = processAnswers_forEach z rest (acc @ [?r])"
            using ok Some JArr Inr by (simp add: Let_def)
          ultimately show ?thesis
            using f' res by simp
        qed
      qed (use ok fd found Some fs in \<open>simp_all add: bind_def throw_def\<close>)
    qed
  qed
qed

lemma getQuiz_on_eq:
  assumes "represents s sv"
  shows "\<exists>r. getQuiz_on quizId s = (r, s)
           \<and> rel_sum (=) (\<lambda>a z. quiz_at s a = Some z) r (getQuiz sv quizId)"
proof -
  have look: "rel_option (\<lambda>a z. quiz_at s a = Some z) (map_of xs key) (map_of ys key)"
    if "list_all2 (\<lambda>ka kz. fst ka = fst kz \<and> quiz_at s (snd ka) = Some (snd kz)) xs ys"
    for xs ys key
    using that by (induction xs ys rule: list_all2_induct) auto
  show ?thesis
  proof (cases "validateQuizId quizId")
    case (Inl err)
    then show ?thesis
      by (simp add: getQuiz_on_def getQuiz_def validateQuizId_on_def bind_def throw_def)
  next
    case (Inr u)
    then obtain key where key: "quizId = JStr key"
      by (cases quizId) (auto simp: validateQuizId_def split: if_splits)
    from look [of "quizzes_map s" "quizzes sv" key] assms
    have "rel_option (\<lambda>a z. quiz_at s a = Some z) (map_of (quizzes_map s) key)
        (map_of (quizzes sv) key)"
      by (simp add: represents_def)
    with Inr key show ?thesis
      by (cases "map_of (quizzes_map s) key"; cases "map_of (quizzes sv) key")
         (simp_all add: getQuiz_on_def getQuiz_def validateQuizId_on_def bind_def throw_def
            return_def Map_get_def)
  qed
qed

lemma submitQuizAnswers_on_result:
  assumes "store_ok s" "represents s sv"
  shows "fst (submitQuizAnswers_on e quizId answers s) = fst (submitQuizAnswers e quizId answers sv)"
proof -
  from getQuiz_on_eq [OF assms(2), of quizId] obtain r where
    g: "getQuiz_on quizId s = (r, s)"
    and rel: "rel_sum (=) (\<lambda>a z. quiz_at s a = Some z) r (getQuiz sv quizId)"
    by blast
  show ?thesis
  proof (cases "getQuiz sv quizId")
    case (Inl err)
    with rel have "r = Inl err" by (cases r) simp_all
    with g Inl show ?thesis
      by (simp add: submitQuizAnswers_on_def submitQuizAnswers_def bind_def)
  next
    case (Inr z)
    with rel obtain a where r: "r = Inr a" and za: "quiz_at s a = Some z"
      by (cases r) simp_all
    from read_quiz_of [OF za] obtain zo where
      zo: "read_quiz a s = (Inr zo, s)" "length (o_questions zo) = length (questions z)"
      by blast
    show ?thesis
    proof (cases "length (questions z) = 0")
      case True
      with g r zo Inr show ?thesis
        by (simp add: submitQuizAnswers_on_def submitQuizAnswers_def bind_def throw_def)
    next
      case nonempty: False
      from nonempty zo(2) have ne: "o_questions zo \<noteq> []" "length (o_questions zo) \<noteq> 0"
        by auto
      have f0: "follows s s" using assms(1) by (rule follows_refl)
      from validateAnswersFormat_on_eq [OF f0 za, of answers] obtain s1 where
        v: "validateAnswersFormat_on answers a s = (validateAnswersFormat answers z, s1)"
        and f1: "follows s s1"
        by blast
      show ?thesis
      proof (cases "validateAnswersFormat answers z")
        case (Inl err)
        with g r zo Inr nonempty ne v show ?thesis
          by (simp add: submitQuizAnswers_on_def submitQuizAnswers_def bind_def)
      next
        case vok: (Inr u)
        let ?arr = "next_addr s1"
        let ?s2 = "s1\<lparr>objs := (objs s1)(?arr \<mapsto> Array_obj []), next_addr := Suc ?arr\<rparr>"
        have f2: "follows s ?s2" using f1 by (rule follows_alloc)
        have fresh: "objs s ?arr = None" using follows_fresh [OF f1] by auto
        have o2: "objs ?s2 ?arr = Some (Array_obj [])" by simp
        show ?thesis
        proof (cases answers)
          case (JArr as)
          from processAnswers_forEach_on_eq [OF o2 fresh f2 za, of as] obtain r3 s3 where
            p: "processAnswers_forEach_on a ?arr as ?s2 = (r3, s3)" and f3: "follows s s3"
            and res: "case processAnswers_forEach z as [] of
                 Inl err \<Rightarrow> r3 = Inl err
               | Inr rs \<Rightarrow> r3 = Inr () \<and> objs s3 ?arr = Some (Array_obj rs)"
            by blast
          have pon: "processAnswers_on answers a s1 =
              (case r3 of Inl err \<Rightarrow> (Inl err, s3) | Inr u \<Rightarrow> (Inr ?arr, s3))"
            using p by (simp add: processAnswers_on_def JArr bind_def alloc_def return_def
                split: sum.splits)
          show ?thesis
          proof (cases "processAnswers_forEach z as []")
            case (Inl err)
            with res have "r3 = Inl err" by simp
            with g r zo Inr nonempty ne v vok pon Inl JArr show ?thesis
              by (simp add: submitQuizAnswers_on_def submitQuizAnswers_def bind_def
                  processAnswers_def)
          next
            case prs: (Inr rs)
            with res have r3: "r3 = Inr ()" and arr: "objs s3 ?arr = Some (Array_obj rs)"
              by simp_all
            have za3: "quiz_at s3 a = Some z" using f3 za by (rule quiz_at_follows)
            from read_quiz_of [OF za3] obtain zo3 where
              zo3: "read_quiz a s3 = (Inr zo3, s3)"
                "length (o_questions zo3) = length (questions z)"
              by blast
            have ra: "read_array ?arr s3 = (Inr rs, s3)"
              using arr by (simp add: read_array_def)
            show ?thesis
              using g r zo Inr nonempty ne v vok pon r3 prs JArr zo3 ra
              by (simp add: submitQuizAnswers_on_def submitQuizAnswers_def bind_def
                  processAnswers_def calculateStatistics_on_def return_def Let_def)
          qed
        next
          case JUndefined
          with vok show ?thesis by (simp add: validateAnswersFormat_def)
        next
          case JNull
          with vok show ?thesis by (simp add: validateAnswersFormat_def)
        next
          case (JBool b)
          with vok show ?thesis by (simp add: validateAnswersFormat_def)
        next
          case (JNum x)
          with vok show ?thesis by (simp add: validateAnswersFormat_def)
        next
          case (JStr x)
          with vok show ?thesis by (simp add: validateAnswersFormat_def)
        next
          case (JObj x)
          with vok show ?thesis by (simp add: validateAnswersFormat_def)
        qed
      qed
    qed
  qed
qed


lemma represents_store0: "represents store0 service2"
  by (simp add: represents_def store0_def service2_def quiz2_def quiz0_def quiz_at_def
      question_at_def option_at_def q_single_def q_multi_def)

lemma store0_result_full:
  "fst (submitQuizAnswers_on env0 (JStr ''id-'') answers_full store0)
     = fst (submitQuizAnswers env0 (JStr ''id-'') answers_full service2)"
  using store_ok_store0 represents_store0 by (rule submitQuizAnswers_on_result)


section \<open>The title of a quiz\<close>

lemma trim_trim [simp]: "trim (trim s) = trim s"
proof -
  define a where "a = dropWhile js_whitespace s"
  define b where "b = dropWhile js_whitespace (rev a)"
  have t: "trim s = rev b"
    by (simp add: trim_def a_def b_def)
  have keep: "dropWhile js_whitespace (rev b) = rev b"
  proof (cases "b = []")
    case True
    then show ?thesis by simp
  next
    case False
    have split: "rev a = takeWhile js_whitespace (rev a) @ b"
      by (simp add: b_def)
    with False have "last b = last (rev a)"
      by (metis last_appendR)
    moreover from False have "a \<noteq> []"
      by (auto simp: b_def)
    ultimately have "last b = hd a"
      by (simp add: last_rev)
    moreover have "\<not> js_whitespace (hd a)"
      using \<open>a \<noteq> []\<close> unfolding a_def by (rule hd_dropWhile)
    ultimately have "\<not> js_whitespace (hd (rev b))"
      using False by (simp add: hd_rev)
    with False show ?thesis
      by (cases "rev b") simp_all
  qed
  have "dropWhile js_whitespace b = b"
    by (simp add: b_def)
  with keep show ?thesis
    by (simp add: t) (simp add: trim_def keep)
qed

lemma titles_bounded_update:
  assumes "titles_bounded s" "trim (title z) = title z" "1 \<le> length (title z)" "length (title z) \<le> 200"
  shows "titles_bounded (s\<lparr>quizzes := AList.update key z (quizzes s)\<rparr>)"
  using assms by (auto simp: titles_bounded_def update_conv' split: if_splits)

lemma titles_bounded_createQuiz:
  assumes "titles_bounded s"
  shows "titles_bounded (snd (createQuiz e t s))"
proof (cases t)
  case (JStr str)
  show ?thesis
  proof (cases "length (trim str) < 3 \<or> length (trim str) > 200")
    case True
    with assms show ?thesis
      by (auto simp: createQuiz_def JStr Let_def)
  next
    case False
    then have "titles_bounded (s\<lparr>quizzes := AList.update (quiz_id (Quiz_new e (trim str)))
        (Quiz_new e (trim str)) (quizzes s)\<rparr>)"
      using assms by (intro titles_bounded_update) (simp_all add: Quiz_new_def)
    with False show ?thesis
      by (auto simp: createQuiz_def JStr Let_def)
  qed
qed (use assms in \<open>simp_all add: createQuiz_def\<close>)

lemma titles_bounded_addQuestion:
  assumes "titles_bounded s"
  shows "titles_bounded (snd (addQuestion e quizId d s))"
proof (cases rule: addQuestion_cases [of e quizId d s])
  case (failed err)
  with assms show ?thesis by simp
next
  case (added q key z)
  from assms added(2) have "trim (title z) = title z" "1 \<le> length (title z)" "length (title z) \<le> 200"
    by (auto simp: titles_bounded_def)
  then have "titles_bounded (s\<lparr>quizzes := AList.update key (Quiz_addQuestion e q z) (quizzes s)\<rparr>)"
    using assms by (intro titles_bounded_update) (simp_all add: Quiz_addQuestion_def)
  with added(4) show ?thesis by simp
qed

lemma titles_bounded_deleteQuiz:
  assumes "titles_bounded s"
  shows "titles_bounded (snd (deleteQuiz quizId s))"
proof (cases "getQuiz s quizId")
  case (Inl err)
  with assms show ?thesis by (simp add: deleteQuiz_def)
next
  case (Inr z)
  then obtain key where "quizId = JStr key"
    using getQuiz_Inr by blast
  with Inr assms show ?thesis
    by (auto simp: deleteQuiz_def titles_bounded_def delete_conv' split: if_splits)
qed

lemma titles_bounded_updateQuizTitle:
  assumes "titles_bounded s"
  shows "titles_bounded (snd (updateQuizTitle e quizId t s))"
proof (cases "getQuiz s quizId")
  case (Inl err)
  with assms show ?thesis by (simp add: updateQuizTitle_def)
next
  case (Inr z)
  then obtain key where key: "quizId = JStr key"
    using getQuiz_Inr by blast
  show ?thesis
  proof (cases t)
    case (JStr str)
    show ?thesis
    proof (cases "str = [] \<or> length (trim str) = 0 \<or> length (trim str) > 200")
      case True
      with Inr assms show ?thesis
        by (auto simp: updateQuizTitle_def JStr Let_def)
    next
      case False
      then have "titles_bounded (s\<lparr>quizzes := AList.update key
          (z\<lparr>title := trim str, updatedAt := now e 0\<rparr>) (quizzes s)\<rparr>)"
        using assms by (intro titles_bounded_update) (auto simp: Suc_le_eq)
      with False Inr key show ?thesis
        by (auto simp: updateQuizTitle_def JStr Let_def put_quiz_def)
    qed
  qed (use Inr assms in \<open>simp_all add: updateQuizTitle_def\<close>)
qed

lemma reachable_titles_bounded: "reachable s \<Longrightarrow> titles_bounded s"
proof (induction rule: reachable.induct)
  case reachable_init
  show ?case by (simp add: titles_bounded_def)
next
  case (reachable_createQuiz s e t)
  then show ?case by (simp add: titles_bounded_createQuiz)
next
  case (reachable_addQuestion s e quizId questionData)
  then show ?case by (simp add: titles_bounded_addQuestion)
next
  case (reachable_deleteQuiz s quizId)
  then show ?case by (simp add: titles_bounded_deleteQuiz)
next
  case (reachable_updateQuizTitle s e quizId t)
  then show ?case by (simp add: titles_bounded_updateQuizTitle)
next
  case (reachable_submitQuizAnswers s e quizId answers)
  then show ?case by (simp add: submitQuizAnswers_state)
next
  case (reachable_clearAll s)
  show ?case by (simp add: titles_bounded_def clearAll_def)
qed

text \<open>
  Claim C5 does not hold of the code: \<open>createQuiz\<close> refuses a title shorter than three
  characters, but \<open>updateQuizTitle\<close> has no such test. After creating the quiz
  \<open>Math Quiz\<close> and updating its title to \<open>ab\<close>, the service is in a reachable state
  whose quiz has a title of length two.
\<close>

theorem updateQuizTitle_accepts_short_title:
  "reachable (snd (updateQuizTitle env1 (JStr ''id-'') (JStr ''ab'') service0))
   \<and> snd (updateQuizTitle env1 (JStr ''id-'') (JStr ''ab'') service0)
       = \<lparr>quizzes = [(''id-'', quiz0\<lparr>title := ''ab'', updatedAt := ''2024-01-01T00:00:01.000Z''\<rparr>)]\<rparr>
   \<and> length (title (quiz0\<lparr>title := ''ab'', updatedAt := ''2024-01-01T00:00:01.000Z''\<rparr>)) = 2
   \<and> fst (createQuiz env0 (JStr ''ab'') \<lparr>quizzes = []\<rparr>)
       = Inl (Error [Lit ''Quiz title must be at least 3 characters long''])"
proof -
  have r: "reachable (snd (updateQuizTitle env1 (JStr ''id-'') (JStr ''ab'') service0))"
    using reachable_service0 by (rule reachable_updateQuizTitle)
  have t: "trim ''ab'' = ''ab''"
    by (simp add: trim_def js_whitespace_def)
  have u: "snd (updateQuizTitle env1 (JStr ''id-'') (JStr ''ab'') service0)
      = \<lparr>quizzes = [(''id-'', quiz0\<lparr>title := ''ab'', updatedAt := ''2024-01-01T00:00:01.000Z''\<rparr>)]\<rparr>"
    by (simp add: updateQuizTitle_def getQuiz_JStr service0_def t Let_def put_quiz_def env1_def)
  have c: "fst (createQuiz env0 (JStr ''ab'') \<lparr>quizzes = []\<rparr>)
      = Inl (Error [Lit ''Quiz title must be at least 3 characters long''])"
    by (simp add: createQuiz_def t Let_def)
  from r u c show ?thesis by simp
qed

section \<open>The rounding of doubles\<close>

lemma pow2_powi: "pow2 k = 2 powi k"
  by (simp add: pow2_def power_int_def inverse_eq_divide power_one_over)

lemma pow2_pos: "0 < pow2 k"
  by (simp add: pow2_powi)

lemma pow2_shift: "pow2 (k - 52) = pow2 k / 2 ^ 52"
proof -
  have "(2::rat) powi (k - 52) = 2 powi k / 2 powi 52"
    by (rule power_int_diff) simp
  then show ?thesis by (simp add: pow2_powi)
qed

lemma round_half_even_error: "\<bar>of_int (round_half_even r) - r\<bar> \<le> 1 / 2"
proof -
  have "of_int \<lfloor>r\<rfloor> \<le> r" "r < of_int \<lfloor>r\<rfloor> + 1"
    by linarith+
  then show ?thesis
    by (auto simp: round_half_even_def Let_def)
qed

lemma round_half_even_nonneg: "0 \<le> r \<Longrightarrow> 0 \<le> round_half_even r"
  by (auto simp: round_half_even_def Let_def)

lemma ilog2_le:
  assumes "0 < x"
  shows "pow2 (ilog2 x) \<le> x"
proof -
  obtain p q where pq: "quotient_of x = (p, q)"
    by (cases "quotient_of x")
  then have q: "0 < q" and x: "x = of_int p / of_int q"
    by (simp_all add: quotient_of_denom_pos quotient_of_div)
  with assms have p: "0 < p"
    by (simp add: zero_less_divide_iff)
  let ?k = "bitlen p - bitlen q"
  have bp: "1 \<le> bitlen p"
    using p bitlen_eq_zero_iff [of p] bitlen_nonneg [of p] by linarith
  have "2 ^ nat (bitlen p - 1) \<le> p"
    using bitlen_bounds [OF p] by simp
  then have "(of_int (2 ^ nat (bitlen p - 1)) :: rat) \<le> of_int p"
    by (simp only: of_int_le_iff)
  then have lo: "(2::rat) powi (bitlen p - 1) \<le> of_int p"
    using bp by (simp add: power_int_def)
  have "q < 2 ^ nat (bitlen q)"
    using bitlen_bounds [OF q] by simp
  then have "(of_int q :: rat) \<le> of_int (2 ^ nat (bitlen q))"
    by (simp only: of_int_le_iff)
  then have hi: "of_int q \<le> (2::rat) powi (bitlen q)"
    using bitlen_nonneg [of q] by (simp add: power_int_def)
  have "(2::rat) powi (?k - 1) = 2 powi (bitlen p - 1) / 2 powi (bitlen q)"
    using power_int_diff [of "2::rat" "bitlen p - 1" "bitlen q"] by (simp add: algebra_simps)
  also have "\<dots> \<le> of_int p / of_int q"
    using lo hi q p by (intro frac_le) simp_all
  finally have low: "pow2 (?k - 1) \<le> x"
    by (simp add: pow2_powi x)
  show ?thesis
    using low by (simp add: ilog2_def pq Let_def)
qed

lemma ilog2_less:
  assumes "0 < x"
  shows "x < pow2 (ilog2 x + 1)"
proof -
  obtain p q where pq: "quotient_of x = (p, q)"
    by (cases "quotient_of x")
  then have q: "0 < q" and x: "x = of_int p / of_int q"
    by (simp_all add: quotient_of_denom_pos quotient_of_div)
  with assms have p: "0 < p"
    by (simp add: zero_less_divide_iff)
  let ?k = "bitlen p - bitlen q"
  have bq: "1 \<le> bitlen q"
    using q bitlen_eq_zero_iff [of q] bitlen_nonneg [of q] by linarith
  have "p < 2 ^ nat (bitlen p)"
    using bitlen_bounds [OF p] by simp
  then have "(of_int p :: rat) < of_int (2 ^ nat (bitlen p))"
    by (simp only: of_int_less_iff)
  then have hi: "of_int p < (2::rat) powi (bitlen p)"
    using bitlen_nonneg [of p] by (simp add: power_int_def)
  have "2 ^ nat (bitlen q - 1) \<le> q"
    using bitlen_bounds [OF q] by simp
  then have "(of_int (2 ^ nat (bitlen q - 1)) :: rat) \<le> of_int q"
    by (simp only: of_int_le_iff)
  then have lo: "(2::rat) powi (bitlen q - 1) \<le> of_int q"
    using bq by (simp add: power_int_def)
  have "of_int p / of_int q < (2::rat) powi (bitlen p) / 2 powi (bitlen q - 1)"
    using hi lo p by (intro frac_less) simp_all
  also have "\<dots> = 2 powi (?k + 1)"
    using power_int_diff [of "2::rat" "bitlen p" "bitlen q - 1"] by (simp add: algebra_simps)
  finally have up: "x < pow2 (?k + 1)"
    by (simp add: pow2_powi x)
  show ?thesis
    using up by (auto simp: ilog2_def pq Let_def)
qed

text \<open>The double nearest to one tenth, and the two doubles of the percentage of 23
  correct answers out of 40.\<close>

lemma to_double_tenth: "to_double (1 / 10) = 3602879701896397 / 36028797018963968"
  by code_simp

lemma double_23_of_40:
  "double_div 23 40 = 2589569785738035 / 4503599627370496"
  "double_mul (double_div 23 40) 100 = 8092405580431359 / 140737488355328"
  by code_simp+

lemma to_double_nonneg: "0 \<le> x \<Longrightarrow> 0 \<le> to_double x"
  by (auto simp: to_double_def Let_def round_half_even_nonneg pow2_pos less_imp_le
      intro!: mult_nonneg_nonneg)

lemma to_double_error:
  assumes "0 \<le> x"
  shows "\<bar>to_double x - x\<bar> \<le> x / 2 ^ 53"
proof (cases "x = 0")
  case True
  then show ?thesis by (simp add: to_double_def)
next
  case False
  with assms have pos: "0 < x" by simp
  define e where "e = ilog2 x - 52"
  define m where "m = round_half_even (x / pow2 e)"
  have td: "to_double x = of_int m * pow2 e"
    using pos by (simp add: to_double_def Let_def e_def m_def)
  have pe: "0 < pow2 e" by (rule pow2_pos)
  have "pow2 e = pow2 (ilog2 x) / 2 ^ 52"
    unfolding e_def by (rule pow2_shift)
  also have "\<dots> \<le> x / 2 ^ 52"
    using ilog2_le [OF pos] by (simp add: divide_right_mono)
  finally have small: "pow2 e \<le> x / 2 ^ 52" .
  have "\<bar>of_int m - x / pow2 e\<bar> \<le> 1 / 2"
    unfolding m_def by (rule round_half_even_error)
  then have "\<bar>of_int m - x / pow2 e\<bar> * pow2 e \<le> 1 / 2 * pow2 e"
    using pe by (intro mult_right_mono) simp_all
  moreover have "\<bar>of_int m - x / pow2 e\<bar> * pow2 e = \<bar>of_int m * pow2 e - x\<bar>"
  proof -
    have "\<bar>of_int m - x / pow2 e\<bar> * pow2 e = \<bar>(of_int m - x / pow2 e) * pow2 e\<bar>"
      using pe by (simp add: abs_mult)
    also have "(of_int m - x / pow2 e) * pow2 e = of_int m * pow2 e - x"
      using pe by (simp add: field_simps)
    finally show ?thesis .
  qed
  ultimately have "\<bar>to_double x - x\<bar> \<le> pow2 e / 2"
    by (simp add: td)
  also have "\<dots> \<le> (x / 2 ^ 52) / 2"
    using small by simp
  also have "\<dots> = x / 2 ^ 53"
    by simp
  finally show ?thesis .
qed


lemma double_percentage_error:
  fixes c t :: nat
  assumes "c \<le> t" "0 < t"
  defines "x \<equiv> (of_nat c / of_nat t :: rat)"
  defines "d \<equiv> double_mul (double_div (of_nat c) (of_nat t)) 100"
  shows "0 \<le> d" and "\<bar>d - x * 100\<bar> \<le> 300 / 2 ^ 53"
proof -
  define u where "u = (1 / 2 ^ 53 :: rat)"
  have u: "0 < u" "u \<le> 1"
    by (simp_all add: u_def)
  have x0: "0 \<le> x" and x1: "x \<le> 1"
    using assms(1,2) by (simp_all add: x_def)
  define d1 where "d1 = to_double x"
  have d1_0: "0 \<le> d1"
    unfolding d1_def using x0 by (rule to_double_nonneg)
  have "\<bar>d1 - x\<bar> \<le> x / 2 ^ 53"
    unfolding d1_def using x0 by (rule to_double_error)
  then have "\<bar>d1 - x\<bar> \<le> x * u"
    by (simp add: u_def)
  moreover have "x * u \<le> 1 * u"
    using x1 u by (intro mult_right_mono) simp_all
  ultimately have e1: "\<bar>d1 - x\<bar> \<le> u" by simp
  have d: "d = to_double (d1 * 100)"
    by (simp add: d_def double_mul_def double_div_def d1_def x_def)
  have y0: "0 \<le> d1 * 100"
    using d1_0 by simp
  show "0 \<le> d"
    unfolding d using y0 by (rule to_double_nonneg)
  have "\<bar>d - d1 * 100\<bar> \<le> d1 * 100 / 2 ^ 53"
    unfolding d using y0 by (rule to_double_error)
  then have e2: "\<bar>d - d1 * 100\<bar> \<le> (d1 * 100) * u"
    by (simp add: u_def)
  have "d1 \<le> 2"
    using e1 x1 u by (simp add: abs_le_iff)
  then have "(d1 * 100) * u \<le> 200 * u"
    using u by (intro mult_right_mono) simp_all
  with e2 have e2': "\<bar>d - d1 * 100\<bar> \<le> 200 * u" by linarith
  from e1 e2' have "\<bar>d - x * 100\<bar> \<le> 300 * u"
    by (simp add: abs_le_iff)
  then show "\<bar>d - x * 100\<bar> \<le> 300 / 2 ^ 53"
    by (simp add: u_def)
qed

lemma percentage_close_to_exact:
  fixes c t :: nat
  assumes "c \<le> t" "0 < t" "t < 2 ^ 32"
  defines "P \<equiv> Math_round (double_mul (double_div (of_nat c) (of_nat t)) 100)"
  defines "R \<equiv> exact_percentage (int c) (int t)"
  shows "0 \<le> P" and "P \<le> 100"
    and "\<not> half_way (int c) (int t) \<Longrightarrow> P = R"
    and "P = R \<or> P = R - 1"
proof -
  define x where "x = (of_nat c / of_nat t :: rat)"
  define d where "d = double_mul (double_div (of_nat c) (of_nat t)) 100"
  define \<delta> where "\<delta> = (300 / 2 ^ 53 :: rat)"
  define V where "V = x * 100 + 1 / 2"
  define h where "h = (1 / (2 * of_nat t) :: rat)"
  define n where "n = 200 * int c + int t"
  define m where "m = n mod (2 * int t)"
  have d0: "0 \<le> d" and err: "\<bar>d - x * 100\<bar> \<le> \<delta>"
    unfolding d_def x_def \<delta>_def using assms(1,2) by (rule double_percentage_error)+
  have x0: "0 \<le> x" and x1: "x \<le> 1"
    using assms(1,2) by (simp_all add: x_def)
  have P: "P = \<lfloor>d + 1 / 2\<rfloor>"
    by (simp add: P_def Math_round_def d_def)
  have R: "R = \<lfloor>V\<rfloor>"
    by (simp add: R_def exact_percentage_def Math_round_def x_def V_def)
  have \<delta>: "0 < \<delta>" "\<delta> < 1 / 2"
    by (simp_all add: \<delta>_def)
  have tpos: "(0::rat) < of_nat t"
    using assms(2) by simp
  have "(of_nat t :: rat) < of_nat (2 ^ 32)"
    using assms(3) by (simp only: of_nat_less_iff)
  then have tlt: "(of_nat t :: rat) < 2 ^ 32"
    by simp
  have \<delta>h: "\<delta> < h"
  proof -
    have "\<delta> * (2 * of_nat t) < \<delta> * (2 * 2 ^ 32)"
      using \<delta>(1) tlt by (intro mult_strict_left_mono) simp_all
    also have "\<dots> < 1"
      by (simp add: \<delta>_def)
    finally have "\<delta> * (2 * of_nat t) < 1" .
    then show ?thesis
      using tpos by (simp add: h_def field_simps)
  qed
  have close: "V - \<delta> \<le> d + 1 / 2" "d + 1 / 2 \<le> V + \<delta>"
    using err by (simp_all add: abs_le_iff V_def)
  show "0 \<le> P"
    unfolding P using d0 by simp
  have "d + 1 / 2 < 101"
    using close(2) x1 \<delta> by (simp add: V_def)
  then show "P \<le> 100"
    unfolding P by (simp add: floor_less_iff)
  have Vn: "V = of_int n / of_int (2 * int t)"
    using tpos by (simp add: V_def x_def n_def field_simps)
  have Rdiv: "R = n div (2 * int t)"
    unfolding R Vn by (rule floor_divide_of_int_eq)
  have m: "0 \<le> m" "m < 2 * int t"
    using assms(2) by (simp_all add: m_def)
  have "n = R * (2 * int t) + m"
    using div_mult_mod_eq [of n "2 * int t"] by (simp only: Rdiv m_def)
  then have "(of_int n :: rat) = of_int (R * (2 * int t) + m)"
    by (simp only:)
  then have "of_int n = (of_int R * (2 * of_nat t) + of_int m :: rat)"
    by simp
  then have VR: "V = of_int R + of_int m * h"
    using tpos by (simp add: Vn h_def field_simps)
  have hpos: "0 < h"
    using tpos by (simp add: h_def)
  have h2t: "h * (2 * of_nat t) = 1"
    using tpos by (simp add: h_def)
  have upper: "d + 1 / 2 < of_int R + 1"
  proof (cases "m = 0")
    case True
    with VR close(2) \<delta> show ?thesis by simp
  next
    case False
    with m have "m + 1 \<le> 2 * int t" by simp
    then have "(of_int (m + 1) :: rat) \<le> of_int (2 * int t)"
      by (simp only: of_int_le_iff)
    then have "(of_int m + 1) * h \<le> (2 * of_nat t) * h"
      using hpos by (intro mult_right_mono) simp_all
    then have "of_int m * h + h \<le> 1"
      using h2t by (simp add: algebra_simps)
    with VR close(2) \<delta>h show ?thesis by linarith
  qed
  then have "d + 1 / 2 < of_int (R + 1)"
    by simp
  then have "\<lfloor>d + 1 / 2\<rfloor> < R + 1"
    by (simp only: floor_less_iff)
  then have PR: "P \<le> R"
    unfolding P by simp
  have lower: "of_int R \<le> d + 1 / 2" if "m \<noteq> 0"
  proof -
    from that m have "1 \<le> m" by simp
    then have "(1::rat) \<le> of_int m"
      by simp
    then have "1 * h \<le> of_int m * h"
      using hpos by (intro mult_right_mono) simp_all
    with VR close(1) \<delta>h show ?thesis by simp
  qed
  have mh: "0 \<le> of_int m * h"
    using m(1) hpos by simp
  have "of_int (R - 1) \<le> d + 1 / 2"
    using VR close(1) \<delta> mh by simp
  then have "R - 1 \<le> P"
    unfolding P by (simp add: le_floor_iff)
  with PR show "P = R \<or> P = R - 1" by linarith
  show "P = R" if "\<not> half_way (int c) (int t)"
  proof -
    from that have "m \<noteq> 0"
      by (simp add: half_way_def m_def n_def)
    then have "of_int R \<le> d + 1 / 2" by (rule lower)
    then have "R \<le> P"
      unfolding P by (simp add: le_floor_iff)
    with PR show ?thesis by simp
  qed
qed

section \<open>The statistics of a submission\<close>

lemma processAnswers_forEach_length:
  "processAnswers_forEach z as acc = Inr rs \<Longrightarrow> length rs = length acc + length as"
proof (induction as arbitrary: acc)
  case Nil
  then show ?case by simp
next
  case (Cons a as)
  from Cons.prems obtain q where q: "findQuestionById z (get_prop a ''questionId'') = Some q"
    by (cases "findQuestionById z (get_prop a ''questionId'')") (auto split: if_splits)
  from Cons.prems q obtain ids where ids: "get_prop a ''selectedOptionIds'' = JArr ids"
    by (cases "get_prop a ''selectedOptionIds''") (auto split: if_splits)
  from Cons.prems q ids obtain r where
    "processAnswers_forEach z as (acc @ [r]) = Inr rs"
    by (cases "checkOptionIds q ids") (auto simp: Let_def split: if_splits)
  from Cons.IH [OF this] show ?case by simp
qed

lemma submitQuizAnswers_Inr:
  assumes "submitQuizAnswers e quizId answers s = (Inr r, s')"
  obtains z as rs where "getQuiz s quizId = Inr z" "answers = JArr as"
    "validateAnswersFormat answers z = Inr ()"
    "processAnswers_forEach z as [] = Inr rs"
    "results r = rs" "submittedAt r = now e 0"
    "score r = score (calculateStatistics rs (length (questions z)))
     \<and> total r = total (calculateStatistics rs (length (questions z)))
     \<and> percentage r = percentage (calculateStatistics rs (length (questions z)))
     \<and> answeredCount r = answeredCount (calculateStatistics rs (length (questions z)))
     \<and> unansweredCount r = unansweredCount (calculateStatistics rs (length (questions z)))
     \<and> passed r = passed (calculateStatistics rs (length (questions z)))
     \<and> grade r = grade (calculateStatistics rs (length (questions z)))"
proof (cases "getQuiz s quizId")
  case (Inl err)
  with assms show ?thesis by (simp add: submitQuizAnswers_def)
next
  case z: (Inr z)
  show ?thesis
  proof (cases "validateAnswersFormat answers z")
    case (Inl err)
    with assms z show ?thesis by (simp add: submitQuizAnswers_def split: if_splits)
  next
    case v: (Inr u)
    show ?thesis
    proof (cases "processAnswers answers z")
      case (Inl err)
      with assms z v show ?thesis by (simp add: submitQuizAnswers_def split: if_splits)
    next
      case p: (Inr rs)
      then obtain as where as: "answers = JArr as" "processAnswers_forEach z as [] = Inr rs"
        by (cases answers) (simp_all add: processAnswers_def)
      from assms z v p have r: "r = \<lparr>score = score (calculateStatistics rs (length (questions z))),
          total = total (calculateStatistics rs (length (questions z))),
          percentage = percentage (calculateStatistics rs (length (questions z))),
          answeredCount = answeredCount (calculateStatistics rs (length (questions z))),
          unansweredCount = unansweredCount (calculateStatistics rs (length (questions z))),
          passed = passed (calculateStatistics rs (length (questions z))),
          grade = grade (calculateStatistics rs (length (questions z))),
          results = rs, submittedAt = now e 0\<rparr>"
        by (simp add: submitQuizAnswers_def Let_def split: if_splits)
      have "score r = score (calculateStatistics rs (length (questions z)))
          \<and> total r = total (calculateStatistics rs (length (questions z)))
          \<and> percentage r = percentage (calculateStatistics rs (length (questions z)))
          \<and> answeredCount r = answeredCount (calculateStatistics rs (length (questions z)))
          \<and> unansweredCount r = unansweredCount (calculateStatistics rs (length (questions z)))
          \<and> passed r = passed (calculateStatistics rs (length (questions z)))
          \<and> grade r = grade (calculateStatistics rs (length (questions z)))"
        by (subst r)+ simp
      moreover have "results r = rs" "submittedAt r = now e 0"
        by (subst r, simp)+
      ultimately show ?thesis
        using z as v that by simp
    qed
  qed
qed

lemma calculateGrade_thresholds:
  "(calculateGrade p = ''A'' \<longleftrightarrow> p \<ge> 90)
   \<and> (calculateGrade p = ''B'' \<longleftrightarrow> 80 \<le> p \<and> p < 90)
   \<and> (calculateGrade p = ''C'' \<longleftrightarrow> 70 \<le> p \<and> p < 80)
   \<and> (calculateGrade p = ''D'' \<longleftrightarrow> 60 \<le> p \<and> p < 70)
   \<and> (calculateGrade p = ''F'' \<longleftrightarrow> p < 60)"
  by (simp add: calculateGrade_def)

lemma calculateStatistics_fields:
  assumes "0 < n"
  shows "score (calculateStatistics rs n) = int (length (filter r_isCorrect rs))"
    and "total (calculateStatistics rs n) = int n"
    and "answeredCount (calculateStatistics rs n) = int (length rs)"
    and "unansweredCount (calculateStatistics rs n) = int n - int (length rs)"
    and "passed (calculateStatistics rs n) \<longleftrightarrow> percentage (calculateStatistics rs n) \<ge> 60"
    and "grade (calculateStatistics rs n) = calculateGrade (percentage (calculateStatistics rs n))"
    and "percentage (calculateStatistics rs n) =
           Math_round (double_mul (double_div (of_nat (length (filter r_isCorrect rs))) (of_nat n)) 100)"
  using assms by (simp_all add: calculateStatistics_def Let_def)

text \<open>
  Claim C4, as the code has it. For a submission that \<open>submitQuizAnswers\<close> answers with
  a result: the score is the number of results that are correct, the total is the number
  of questions of the quiz, \<open>answeredCount\<close> is the number of submitted entries,
  \<open>unansweredCount\<close> is their difference, \<open>passed\<close> holds exactly from 60 percent, and
  the grade is A from 90, B from 80, C from 70, D from 60 and F below. The percentage is
  \<open>Math.round((score / total) * 100)\<close> computed on doubles; it lies between 0 and 100,
  it is \<open>round(score / total * 100)\<close> whenever \<open>score / total * 100\<close> is not half-way
  between two integers, and there it is that value or one less. The number of questions
  is below \<open>2 ^ 32\<close>, the bound on the length of an array.
\<close>

theorem submission_statistics:
  assumes "submitQuizAnswers e quizId answers s = (Inr r, s')"
    and "getQuiz s quizId = Inr z"
    and "answers = JArr as"
    and "length (questions z) < 2 ^ 32"
  shows "score r = int (length (filter r_isCorrect (results r)))
       \<and> total r = int (length (questions z))
       \<and> answeredCount r = int (length as)
       \<and> unansweredCount r = total r - answeredCount r
       \<and> (passed r \<longleftrightarrow> percentage r \<ge> 60)
       \<and> (grade r = ''A'' \<longleftrightarrow> percentage r \<ge> 90)
       \<and> (grade r = ''B'' \<longleftrightarrow> 80 \<le> percentage r \<and> percentage r < 90)
       \<and> (grade r = ''C'' \<longleftrightarrow> 70 \<le> percentage r \<and> percentage r < 80)
       \<and> (grade r = ''D'' \<longleftrightarrow> 60 \<le> percentage r \<and> percentage r < 70)
       \<and> (grade r = ''F'' \<longleftrightarrow> percentage r < 60)
       \<and> 0 \<le> percentage r \<and> percentage r \<le> 100
       \<and> percentage r = Math_round (double_mul (double_div (of_int (score r)) (of_int (total r))) 100)
       \<and> (\<not> half_way (score r) (total r) \<longrightarrow> percentage r = exact_percentage (score r) (total r))
       \<and> (percentage r = exact_percentage (score r) (total r)
            \<or> percentage r = exact_percentage (score r) (total r) - 1)"
proof -
  from assms(1) obtain z' as' rs where
    z': "getQuiz s quizId = Inr z'" and as': "answers = JArr as'"
    and valid: "validateAnswersFormat answers z' = Inr ()"
    and run: "processAnswers_forEach z' as' [] = Inr rs"
    and res: "results r = rs"
    and st: "score r = score (calculateStatistics rs (length (questions z')))
     \<and> total r = total (calculateStatistics rs (length (questions z')))
     \<and> percentage r = percentage (calculateStatistics rs (length (questions z')))
     \<and> answeredCount r = answeredCount (calculateStatistics rs (length (questions z')))
     \<and> unansweredCount r = unansweredCount (calculateStatistics rs (length (questions z')))
     \<and> passed r = passed (calculateStatistics rs (length (questions z')))
     \<and> grade r = grade (calculateStatistics rs (length (questions z')))"
    by (rule submitQuizAnswers_Inr)
  from z' as' assms(2,3) have [simp]: "z' = z" "as' = as" by simp_all
  let ?n = "length (questions z)" and ?c = "length (filter r_isCorrect rs)"
  let ?st = "calculateStatistics rs ?n"
  from valid have "\<not> envelope_refused z answers"
    by (simp add: validateAnswersFormat_ok)
  then have as: "as \<noteq> []" "length as \<le> ?n"
    by (simp_all add: envelope_refused_def assms(3))
  then have n: "0 < ?n" by (cases as) auto
  have len: "length rs = length as"
    using processAnswers_forEach_length [OF run] by simp
  have c: "?c \<le> ?n"
    using length_filter_le [of r_isCorrect rs] len as(2) by linarith
  have fields: "score r = score ?st" "total r = total ?st" "percentage r = percentage ?st"
    "answeredCount r = answeredCount ?st" "unansweredCount r = unansweredCount ?st"
    "passed r = passed ?st" "grade r = grade ?st"
    using st by simp_all
  note cs = calculateStatistics_fields [OF n, of rs]
  have sc: "score r = int ?c" and tot: "total r = int ?n"
    and ans: "answeredCount r = int (length as)"
    and un: "unansweredCount r = total r - answeredCount r"
    and pa: "passed r \<longleftrightarrow> percentage r \<ge> 60"
    and gr: "grade r = calculateGrade (percentage r)"
    by (simp_all add: fields cs len)
  have pc: "percentage r = Math_round (double_mul (double_div (of_nat ?c) (of_nat ?n)) 100)"
    by (simp add: fields cs)
  note close = percentage_close_to_exact [OF c n assms(4)]
  have p0: "0 \<le> percentage r" and p100: "percentage r \<le> 100"
    using close(1,2) by (simp_all add: pc)
  have pd: "percentage r = Math_round (double_mul (double_div (of_int (score r)) (of_int (total r))) 100)"
    by (simp add: pc sc tot)
  have ex: "\<not> half_way (score r) (total r) \<longrightarrow> percentage r = exact_percentage (score r) (total r)"
    using close(3) by (simp add: pc sc tot)
  have near: "percentage r = exact_percentage (score r) (total r)
      \<or> percentage r = exact_percentage (score r) (total r) - 1"
    using close(4) by (simp add: pc sc tot)
  note g = calculateGrade_thresholds [of "percentage r"]
  from sc res have "score r = int (length (filter r_isCorrect (results r)))"
    by simp
  with tot ans un pa gr g p0 p100 pd ex near show ?thesis
    by simp
qed

lemma submitQuizAnswers_example:
  "submitQuizAnswers env1 (JStr ''id-'') answers_full service2 = (Inr result_full, service2)"
  by code_simp

theorem submission_statistics_witness:
  "submitQuizAnswers env1 (JStr ''id-'') answers_full service2 = (Inr result_full, service2)
   \<and> getQuiz service2 (JStr ''id-'') = Inr quiz2
   \<and> length (questions quiz2) < 2 ^ 32
   \<and> score result_full = int (length (filter r_isCorrect (results result_full)))
   \<and> total result_full = int (length (questions quiz2))
   \<and> (passed result_full \<longleftrightarrow> percentage result_full \<ge> 60)
   \<and> (grade result_full = ''A'' \<longleftrightarrow> percentage result_full \<ge> 90)
   \<and> percentage result_full = exact_percentage (score result_full) (total result_full)
   \<and> percentage result_full = 100 \<and> grade result_full = ''A'' \<and> passed result_full"
proof -
  have h2: "getQuiz service2 (JStr ''id-'') = Inr quiz2"
    by (simp add: getQuiz_JStr service2_def)
  have h4: "length (questions quiz2) < 2 ^ 32"
    by (simp add: quiz2_def)
  have nh: "\<not> half_way (score result_full) (total result_full)"
    by (simp add: half_way_def result_full_def)
  have v: "percentage result_full = 100" "grade result_full = ''A''" "passed result_full"
    by (simp_all add: result_full_def)
  from submission_statistics [OF submitQuizAnswers_example h2 answers_full_def h4] nh
  have "score result_full = int (length (filter r_isCorrect (results result_full)))
      \<and> total result_full = int (length (questions quiz2))
      \<and> (passed result_full \<longleftrightarrow> percentage result_full \<ge> 60)
      \<and> (grade result_full = ''A'' \<longleftrightarrow> percentage result_full \<ge> 90)
      \<and> percentage result_full = exact_percentage (score result_full) (total result_full)"
    by blast
  with submitQuizAnswers_example h2 h4 v show ?thesis by blast
qed

text \<open>
  The claim as it is written fails for a quiz of forty questions of which twenty-three
  are answered correctly: \<open>23 / 40\<close> is the double just below 0.575, its product with
  100 is the double just below 57.5, and the percentage is 57, while
  \<open>round(23 / 40 * 100)\<close> is 58.
\<close>

theorem percentage_23_of_40_counterexample:
  "map_sum id stats.truncate (fst (submitQuizAnswers env1 (JStr ''id-'') answers40 service40))
     = Inr \<lparr>score = 23, total = 40, percentage = 57, answeredCount = 40,
            unansweredCount = 0, passed = False, grade = ''F''\<rparr>
   \<and> exact_percentage 23 40 = 58"
  by code_simp

end
